theory Spec2Isabelle
  imports Complex_Main
begin

section \<open>Data model (types.ts)\<close>

text \<open>
  A JavaScript \<open>number\<close> is modelled as a real: the arithmetic of the simulation is
  read as exact arithmetic. The one place where the model keeps the non-finite values
  of JavaScript arithmetic is the telemetry division (type \<open>jsnum\<close> below), where the
  divisor can be zero.
\<close>

record Vector2 =
  x :: real
  y :: real

record Ball =
  ball_id :: string
  pos :: Vector2
  vel :: Vector2
  acc :: Vector2
  radius :: real
  color :: string
  trail :: "Vector2 list"

datatype ShapeType = triangle | square | pentagon | hexagon | octagon | star

text \<open>
  \<open>vertexCount\<close> and \<open>ballCount\<close> are loop bounds and array lengths in the source;
  they are modelled as natural numbers, and so is the numeric \<open>id\<close> of a simulation.
\<close>

record SimulationConfig =
  cfg_id :: nat
  name :: string
  shapeType :: ShapeType
  vertexCount :: nat
  gravity :: real
  friction :: real
  restitution :: real
  rotationSpeed :: real
  ballCount :: nat
  ballSize :: real
  initialSpeed :: real
  nuanceDescription :: string

text \<open>\<open>precision\<close> is the number of sub-steps of a frame, a loop bound.\<close>

record GlobalSettings =
  timeScale :: real
  gravityMultiplier :: real
  gravityAngle :: real
  viscosity :: real
  rotationMultiplier :: real
  bouncinessMultiplier :: real
  showVectors :: bool
  showTrails :: bool
  precision :: nat
  useHeatmap :: bool
  enableAudio :: bool

section \<open>Vector helpers (utils/math)\<close>

text \<open>
  Modelled from the spec: the module \<open>utils/math\<close> that \<open>Canvas.tsx\<close> imports
  (\<open>add\<close>, \<open>sub\<close>, \<open>mult\<close>, \<open>dot\<close>, \<open>mag\<close>, \<open>normalize\<close>, \<open>generatePolygon\<close>,
  \<open>generateStar\<close>) is not among the sources. The spec describes it as the pure 2D
  vector operations add, subtract, scalar multiply, dot product, magnitude and
  normalize, each returning a new value. The normalisation of the zero vector, on which
  the spec is silent, is the zero vector here.
\<close>

definition add :: "Vector2 \<Rightarrow> Vector2 \<Rightarrow> Vector2" where
  "add a b = \<lparr>x = x a + x b, y = y a + y b\<rparr>"

definition sub :: "Vector2 \<Rightarrow> Vector2 \<Rightarrow> Vector2" where
  "sub a b = \<lparr>x = x a - x b, y = y a - y b\<rparr>"

definition mult :: "Vector2 \<Rightarrow> real \<Rightarrow> Vector2" where
  "mult v s = \<lparr>x = x v * s, y = y v * s\<rparr>"

definition dot :: "Vector2 \<Rightarrow> Vector2 \<Rightarrow> real" where
  "dot a b = x a * x b + y a * y b"

definition mag :: "Vector2 \<Rightarrow> real" where
  "mag v = sqrt (x v * x v + y v * y v)"

definition normalize_v :: "Vector2 \<Rightarrow> Vector2" where
  "normalize_v v =
     (let m = mag v in if m = 0 then \<lparr>x = 0, y = 0\<rparr> else \<lparr>x = x v / m, y = y v / m\<rparr>)"

section \<open>The physics step (Canvas.tsx, runPhysicsStep)\<close>

text \<open>
  The effects of a step besides the particles are the shared collision counter
  \<open>collisionCountRef\<close> and the calls of \<open>playCollisionSound\<close>; the latter are kept as
  the list of the forces passed to it, in call order.
\<close>

type_synonym effects = "nat \<times> real list"

definition effectiveRestitution :: "SimulationConfig \<Rightarrow> GlobalSettings \<Rightarrow> real" where
  "effectiveRestitution config gs = restitution config * bouncinessMultiplier gs"

subsection \<open>Boundary collisions (lines 113-133)\<close>

text \<open>
  The normal of the edge from \<open>p1\<close> to \<open>p2\<close>: the normalised perpendicular of the edge
  direction, both components multiplied by \<open>-1\<close> when \<open>dot(edgeNormal, p1) > 0\<close>.
\<close>

definition edgeNormal :: "Vector2 \<Rightarrow> Vector2 \<Rightarrow> Vector2" where
  "edgeNormal p1 p2 =
     (let edge = sub p2 p1;
          n = normalize_v \<lparr>x = - y edge, y = x edge\<rparr>
      in if dot n p1 > 0 then \<lparr>x = x n * (-1), y = y n * (-1)\<rparr> else n)"

text \<open>The signed distance \<open>dist\<close> of the particle from the edge along that normal.\<close>

definition edgeDist :: "Vector2 \<Rightarrow> Vector2 \<Rightarrow> Ball \<Rightarrow> real" where
  "edgeDist p1 p2 ball = dot (sub (pos ball) p1) (edgeNormal p1 p2)"

text \<open>The test \<open>dist < ball.radius\<close> under which the body of the edge loop acts.\<close>

definition penetrating :: "Vector2 \<Rightarrow> Vector2 \<Rightarrow> Ball \<Rightarrow> bool" where
  "penetrating p1 p2 ball = (edgeDist p1 p2 ball < radius ball)"

text \<open>One iteration of the edge loop, for the edge from \<open>p1\<close> to \<open>p2\<close>.\<close>

definition collideEdge ::
  "real \<Rightarrow> bool \<Rightarrow> Vector2 \<Rightarrow> Vector2 \<Rightarrow> Ball \<times> effects \<Rightarrow> Ball \<times> effects" where
  "collideEdge e audio p1 p2 s =
     (case s of (ball, count, sounds) \<Rightarrow>
        let edgeNormal = edgeNormal p1 p2;
            dist = edgeDist p1 p2 ball
        in if dist < radius ball then
             let ball1 = ball\<lparr>pos := add (pos ball) (mult edgeNormal (radius ball - dist))\<rparr>;
                 velDotNormal = dot (vel ball1) edgeNormal
             in if velDotNormal < 0 then
                  let force = \<bar>velDotNormal\<bar>
                  in (ball1\<lparr>vel := sub (vel ball1)
                                      (mult edgeNormal ((1 + e) * velDotNormal))\<rparr>,
                      count + 1,
                      if audio \<and> force > 1 then sounds @ [force] else sounds)
                else (ball1, count, sounds)
           else (ball, count, sounds))"

text \<open>The edge loop: \<open>p1 = localVertices[i]\<close>, \<open>p2 = localVertices[(i + 1) % length]\<close>.\<close>

definition collideEdges ::
  "real \<Rightarrow> bool \<Rightarrow> Vector2 list \<Rightarrow> Ball \<times> effects \<Rightarrow> Ball \<times> effects" where
  "collideEdges e audio localVertices s =
     fold (\<lambda>i. collideEdge e audio (localVertices ! i)
                  (localVertices ! ((i + 1) mod length localVertices)))
          [0 ..< length localVertices] s"

subsection \<open>Inter-particle collisions (lines 137-161)\<close>

text \<open>
  The body of the double loop for the particles \<open>a\<close> and \<open>b\<close>. The result holds the two
  particles after the resolution and, when an impulse was applied, its force.
\<close>

definition pairNormal :: "Ball \<Rightarrow> Ball \<Rightarrow> Vector2" where
  "pairNormal a b = normalize_v (sub (pos b) (pos a))"

definition sepVel :: "Ball \<Rightarrow> Ball \<Rightarrow> Vector2 \<Rightarrow> real" where
  "sepVel a b normal = dot (sub (vel b) (vel a)) normal"

definition collidePair :: "real \<Rightarrow> Ball \<Rightarrow> Ball \<Rightarrow> Ball \<times> Ball \<times> real option" where
  "collidePair e a b =
     (let diff = sub (pos b) (pos a);
          d = mag diff;
          minDist = radius a + radius b
      in if d < minDist then
           let normal = normalize_v diff;
               overlap = minDist - d;
               a1 = a\<lparr>pos := sub (pos a) (mult normal (overlap / 2))\<rparr>;
               b1 = b\<lparr>pos := add (pos b) (mult normal (overlap / 2))\<rparr>;
               relVel = sub (vel b1) (vel a1);
               sepVel = dot relVel normal
           in if sepVel < 0 then
                let force = \<bar>sepVel\<bar>;
                    impulse = mult normal (sepVel * (1 + e) / 2)
                in (a1\<lparr>vel := add (vel a1) impulse\<rparr>,
                    b1\<lparr>vel := sub (vel b1) impulse\<rparr>,
                    Some force)
              else (a1, b1, None)
         else (a, b, None))"


subsection \<open>Forces and integration (lines 86-110)\<close>

text \<open>
  \<open>Math.pow(airDrag, dt)\<close> is the real power \<open>powr\<close>: the two agree for a positive
  base, and for base 0 with the positive \<open>dt\<close> of a sub-step. For a negative base
  JavaScript may give \<open>NaN\<close>, which the reals do not have; what is proved about the
  drag assumes \<open>viscosity + friction < 1\<close>, a positive base.
\<close>

definition Math_pow :: "real \<Rightarrow> real \<Rightarrow> real" where
  "Math_pow b e = b powr e"

definition gravityVector :: "GlobalSettings \<Rightarrow> SimulationConfig \<Rightarrow> Vector2" where
  "gravityVector gs config =
     (let rad = (gravityAngle gs * pi) / 180
      in \<lparr>x = cos rad * gravity config * gravityMultiplier gs,
          y = sin rad * gravity config * gravityMultiplier gs\<rparr>)"

definition applyForces ::
  "GlobalSettings \<Rightarrow> SimulationConfig \<Rightarrow> Vector2 option \<Rightarrow> real \<Rightarrow> Ball \<Rightarrow> Ball" where
  "applyForces gs config mouse dt ball =
     (let g = gravityVector gs config;
          v1 = \<lparr>x = x (vel ball) + x g * dt, y = y (vel ball) + y g * dt\<rparr>;
          airDrag = 1 - (viscosity gs + friction config);
          v2 = mult v1 (Math_pow airDrag dt);
          v3 = (case mouse of
                  None \<Rightarrow> v2
                | Some m \<Rightarrow>
                    let toMouse = sub m (pos ball);
                        mouseDist = mag toMouse
                    in if mouseDist < 120 then
                         let force = mult (normalize_v toMouse) (400 / (mouseDist + 20))
                         in add v2 (mult force dt)
                       else v2)
      in ball\<lparr>vel := v3, pos := add (pos ball) (mult v3 dt)\<rparr>)"

subsection \<open>The whole step\<close>

text \<open>The \<open>forEach\<close> over the particles: forces, integration, then the edge loop.\<close>

fun forEachBall ::
  "GlobalSettings \<Rightarrow> SimulationConfig \<Rightarrow> Vector2 option \<Rightarrow> real \<Rightarrow> Vector2 list \<Rightarrow>
   Ball list \<Rightarrow> effects \<Rightarrow> Ball list \<times> effects" where
  "forEachBall gs config mouse dt localVertices [] fx = ([], fx)"
| "forEachBall gs config mouse dt localVertices (ball # rest) fx =
     (case collideEdges (effectiveRestitution config gs) (enableAudio gs) localVertices
             (applyForces gs config mouse dt ball, fx) of
        (ball', fx') \<Rightarrow>
          (case forEachBall gs config mouse dt localVertices rest fx' of
             (rest', fx'') \<Rightarrow> (ball' # rest', fx'')))"

text \<open>
  The double loop \<open>i < j\<close> over the particle array. The two particles are updated in
  place, so a later pair sees the corrections of the earlier ones.
\<close>

definition pairStep :: "real \<Rightarrow> bool \<Rightarrow> nat \<times> nat \<Rightarrow> Ball list \<times> effects \<Rightarrow> Ball list \<times> effects" where
  "pairStep e audio ij s =
     (case (ij, s) of ((i, j), bs, count, sounds) \<Rightarrow>
        (case collidePair e (bs ! i) (bs ! j) of
           (a', b', hit) \<Rightarrow>
             ((bs[i := a'])[j := b'],
              (case hit of
                 None \<Rightarrow> (count, sounds)
               | Some force \<Rightarrow>
                   (count + 1, if audio \<and> force > 1 then sounds @ [force] else sounds)))))"

definition pairIndices :: "nat \<Rightarrow> (nat \<times> nat) list" where
  "pairIndices n = concat (map (\<lambda>i. map (\<lambda>j. (i, j)) [i + 1 ..< n]) [0 ..< n])"

definition collidePairs :: "real \<Rightarrow> bool \<Rightarrow> Ball list \<times> effects \<Rightarrow> Ball list \<times> effects" where
  "collidePairs e audio s = fold (pairStep e audio) (pairIndices (length (fst s))) s"

definition runPhysicsStep ::
  "GlobalSettings \<Rightarrow> SimulationConfig \<Rightarrow> Vector2 option \<Rightarrow> real \<Rightarrow> Vector2 list \<Rightarrow>
   Ball list \<times> effects \<Rightarrow> Ball list \<times> effects" where
  "runPhysicsStep gs config mouse dt localVertices s =
     collidePairs (effectiveRestitution config gs) (enableAudio gs)
       (forEachBall gs config mouse dt localVertices (fst s) (snd s))"

section \<open>Container geometry (utils/math)\<close>

text \<open>
  Modelled from the spec: \<open>generatePolygon\<close> and \<open>generateStar\<close> are in the missing
  module. The spec: \<open>n\<close> vertices at the angles \<open>rotation + 2\<pi>k/n\<close>, each at distance
  \<open>radius\<close> from \<open>center\<close>, in increasing-angle order; for the star \<open>2n\<close> vertices that
  alternate between the outer and the inner radius at angles spaced \<open>\<pi>/n\<close> apart.
\<close>

definition generatePolygon :: "nat \<Rightarrow> real \<Rightarrow> Vector2 \<Rightarrow> real \<Rightarrow> Vector2 list" where
  "generatePolygon n r c rot =
     map (\<lambda>k. let a = rot + 2 * pi * real k / real n
               in \<lparr>x = x c + r * cos a, y = y c + r * sin a\<rparr>) [0 ..< n]"

definition generateStar :: "nat \<Rightarrow> real \<Rightarrow> real \<Rightarrow> Vector2 \<Rightarrow> real \<Rightarrow> Vector2 list" where
  "generateStar n outer inner c rot =
     map (\<lambda>k. let r = (if even k then outer else inner);
                   a = rot + pi * real k / real n
               in \<lparr>x = x c + r * cos a, y = y c + r * sin a\<rparr>) [0 ..< 2 * n]"

definition containerVertices :: "SimulationConfig \<Rightarrow> real \<Rightarrow> Vector2 \<Rightarrow> real \<Rightarrow> Vector2 list" where
  "containerVertices config shapeRadius c rot =
     (if shapeType config = star
      then generateStar (vertexCount config) shapeRadius (shapeRadius * 0.4) c rot
      else generatePolygon (vertexCount config) shapeRadius c rot)"


section \<open>The component state (Canvas.tsx, lines 43-57)\<close>

text \<open>
  \<open>stateRef\<close> (particles, rotation, pointer) and the three telemetry refs, with their
  initial values.
\<close>

record Engine =
  balls :: "Ball list"
  rotation :: real
  mousePos :: "Vector2 option"
  collisionCount :: nat
  totalKe :: real
  statsTick :: nat

definition initialEngine :: Engine where
  "initialEngine =
     \<lparr>balls = [], rotation = 0, mousePos = None, collisionCount = 0, totalKe = 0, statsTick = 0\<rparr>"

section \<open>Initialisation (lines 59-79)\<close>

text \<open>
  The decimal form of a number, as the template string \<open>`${config.id}-${i}`\<close> of the
  particle id prints it.
\<close>

definition digit :: "nat \<Rightarrow> char" where
  "digit d = char_of (d + of_char CHR ''0'')"

fun string_of_nat :: "nat \<Rightarrow> string" where
  "string_of_nat n =
     (if 10 \<le> n then string_of_nat (n div 10) @ [digit (n mod 10)] else [digit n])"

declare string_of_nat.simps [simp del]

text \<open>
  \<open>Math.random()\<close> is a source of numbers in \<open>[0, 1)\<close>; the model takes the sequence of
  its results as a parameter. Particle \<open>i\<close> draws four of them, in the order \<open>angle\<close>,
  \<open>dist\<close>, \<open>speed\<close>, \<open>velAngle\<close>.
\<close>

definition newBall :: "SimulationConfig \<Rightarrow> (nat \<Rightarrow> real) \<Rightarrow> nat \<Rightarrow> Ball" where
  "newBall config random i =
     (let angle = random (4 * i) * pi * 2;
          dist = random (4 * i + 1) * 20;
          speed = initialSpeed config * (0.8 + random (4 * i + 2) * 0.4);
          velAngle = random (4 * i + 3) * pi * 2
      in \<lparr>ball_id = string_of_nat (cfg_id config) @ ''-'' @ string_of_nat i,
          pos = \<lparr>x = cos angle * dist, y = sin angle * dist\<rparr>,
          vel = \<lparr>x = cos velAngle * speed, y = sin velAngle * speed\<rparr>,
          acc = \<lparr>x = 0, y = 0\<rparr>,
          radius = ballSize config,
          color = ''#FFFFFF'',
          trail = []\<rparr>)"

definition initialize :: "SimulationConfig \<Rightarrow> (nat \<Rightarrow> real) \<Rightarrow> Engine \<Rightarrow> Engine" where
  "initialize config random st =
     st\<lparr>balls := map (newBall config random) [0 ..< ballCount config], rotation := 0\<rparr>"

text \<open>
  The effect runs at mount and whenever one of its dependencies
  \<open>[config.id, config.ballCount, config.initialSpeed, config.ballSize]\<close> differs from
  its value at the previous render (\<open>None\<close>: there was no previous render).
\<close>

definition initDeps :: "SimulationConfig \<Rightarrow> nat \<times> nat \<times> real \<times> real" where
  "initDeps config = (cfg_id config, ballCount config, initialSpeed config, ballSize config)"

definition initEffect ::
  "SimulationConfig option \<Rightarrow> SimulationConfig \<Rightarrow> (nat \<Rightarrow> real) \<Rightarrow> Engine \<Rightarrow> Engine" where
  "initEffect previous config random st =
     (case previous of
        None \<Rightarrow> initialize config random st
      | Some old \<Rightarrow>
          if initDeps old \<noteq> initDeps config then initialize config random st else st)"

section \<open>The frame driver (lines 173-269, tick)\<close>

definition TRAIL_LENGTH :: nat where
  "TRAIL_LENGTH = 12"

text \<open>
  What the driver reads of the canvas element: whether it is laid out
  (\<open>offsetParent\<close>), whether a 2D context is available, and its client size, which the
  driver copies to \<open>width\<close> and \<open>height\<close> before use. No canvas at all is \<open>None\<close>.
\<close>

record Canvas =
  offsetParent :: bool
  context2d :: bool
  clientWidth :: real
  clientHeight :: real

text \<open>
  The result of \<open>totalKe / (20 * balls.length)\<close>. The dividend is a finite number
  and the divisor a non-negative one; a zero divisor gives \<open>NaN\<close> or an infinity in
  JavaScript, never an exception and never \<open>0\<close>.
\<close>

datatype jsnum = Finite real | NaN | PosInfinity | NegInfinity

definition js_div :: "real \<Rightarrow> real \<Rightarrow> jsnum" where
  "js_div a b =
     (if b \<noteq> 0 then Finite (a / b)
      else if a = 0 then NaN
      else if a > 0 then PosInfinity else NegInfinity)"

text \<open>
  What a frame hands to its collaborators: the circles drawn (\<open>ctx.arc(sx, sy, radius)\<close>,
  one per particle; the other drawing calls read the same state and are left out) and
  the call of \<open>onStatsUpdate\<close>, if any.
\<close>

record Frame =
  circles :: "(real \<times> real \<times> real) list"
  emitted :: "(jsnum \<times> nat) option"

text \<open>
  \<open>Skipped\<close>: one of the two early returns. \<open>Threw\<close>: \<open>worldVertices[0].x\<close> on an empty
  vertex array raises a TypeError, after the sub-steps and before the particles are
  drawn and observed.
\<close>

datatype outcome = Skipped | Threw | Rendered Frame

text \<open>The sub-step loop of a frame, \<open>n\<close> iterations remaining.\<close>

fun subSteps ::
  "GlobalSettings \<Rightarrow> SimulationConfig \<Rightarrow> real \<Rightarrow> real \<Rightarrow> nat \<Rightarrow> Engine \<times> real list \<Rightarrow>
   Engine \<times> real list" where
  "subSteps gs config shapeRadius subDt 0 s = s"
| "subSteps gs config shapeRadius subDt (Suc n) s =
     (case s of (st, sounds) \<Rightarrow>
        let rot = rotation st + rotationSpeed config * rotationMultiplier gs * subDt;
            localVertices = containerVertices config shapeRadius \<lparr>x = 0, y = 0\<rparr> rot
        in (case runPhysicsStep gs config (mousePos st) subDt localVertices
                   (balls st, collisionCount st, sounds) of
              (bs, count, sounds') \<Rightarrow>
                subSteps gs config shapeRadius subDt n
                  (st\<lparr>balls := bs, rotation := rot, collisionCount := count\<rparr>, sounds')))"

definition advance ::
  "GlobalSettings \<Rightarrow> SimulationConfig \<Rightarrow> real \<Rightarrow> Engine \<Rightarrow> Engine \<times> real list" where
  "advance gs config shapeRadius st =
     (if timeScale gs > 0 then
        let subDt = timeScale gs / real (precision gs)
        in subSteps gs config shapeRadius subDt (precision gs) (st, [])
      else (st, []))"

text \<open>The trail bookkeeping of one particle in one frame (lines 233-236).\<close>

definition updateTrail :: "GlobalSettings \<Rightarrow> Vector2 \<Rightarrow> Vector2 list \<Rightarrow> Vector2 list" where
  "updateTrail gs p t =
     (if showTrails gs \<and> timeScale gs > 0 then
        let t1 = t @ [p] in if length t1 > TRAIL_LENGTH then tl t1 else t1
      else if \<not> showTrails gs then [] else t)"

text \<open>
  The \<open>forEach\<close> that draws the particles: it adds \<open>0.5 * speed * speed\<close> to \<open>frameKe\<close>,
  updates the trail and draws the circle.
\<close>

fun drawParticles ::
  "GlobalSettings \<Rightarrow> Vector2 \<Rightarrow> Ball list \<Rightarrow> real \<Rightarrow>
   Ball list \<times> real \<times> (real \<times> real \<times> real) list" where
  "drawParticles gs center [] frameKe = ([], frameKe, [])"
| "drawParticles gs center (ball # rest) frameKe =
     (let sx = x center + x (pos ball);
          sy = y center + y (pos ball);
          speed = mag (vel ball);
          ball' = ball\<lparr>trail := updateTrail gs \<lparr>x = sx, y = sy\<rparr> (trail ball)\<rparr>
      in (case drawParticles gs center rest (frameKe + 0.5 * speed * speed) of
            (rest', ke, cs) \<Rightarrow> (ball' # rest', ke, (sx, sy, radius ball) # cs)))"

text \<open>The point \<open>(sx, sy)\<close> at which a particle is drawn.\<close>

definition screenPos :: "Vector2 \<Rightarrow> Ball \<Rightarrow> Vector2" where
  "screenPos center ball = \<lparr>x = x center + x (pos ball), y = y center + y (pos ball)\<rparr>"

text \<open>
  The telemetry block (lines 261-266). \<open>observer\<close> tells whether \<open>onStatsUpdate\<close> was
  passed to the component.
\<close>

definition observe :: "bool \<Rightarrow> real \<Rightarrow> Engine \<Rightarrow> Engine \<times> (jsnum \<times> nat) option" where
  "observe observer frameKe st =
     (let st1 = st\<lparr>totalKe := totalKe st + frameKe, statsTick := statsTick st + 1\<rparr>
      in if statsTick st1 \<ge> 20 then
           (st1\<lparr>totalKe := 0, collisionCount := 0, statsTick := 0\<rparr>,
            if observer
            then Some (js_div (totalKe st1) (20 * real (length (balls st1))), collisionCount st1)
            else None)
         else (st1, None))"

text \<open>The \<open>center\<close> and the \<open>shapeRadius\<close> of a frame (lines 185-186).\<close>

definition frameCenter :: "Canvas \<Rightarrow> Vector2" where
  "frameCenter cv = \<lparr>x = clientWidth cv / 2, y = clientHeight cv / 2\<rparr>"

definition frameRadius :: "Canvas \<Rightarrow> real" where
  "frameRadius cv = min (clientWidth cv) (clientHeight cv) * 0.44"

definition tick ::
  "Canvas option \<Rightarrow> bool \<Rightarrow> GlobalSettings \<Rightarrow> SimulationConfig \<Rightarrow> Engine \<Rightarrow>
   Engine \<times> real list \<times> outcome" where
  "tick canvas observer gs config st =
     (case canvas of
        None \<Rightarrow> (st, [], Skipped)
      | Some cv \<Rightarrow>
          if \<not> offsetParent cv \<or> \<not> context2d cv then (st, [], Skipped)
          else
            let center = frameCenter cv;
                shapeRadius = frameRadius cv
            in (case advance gs config shapeRadius st of
                  (st1, sounds) \<Rightarrow>
                    let worldVertices = containerVertices config shapeRadius center (rotation st1)
                    in if worldVertices = [] then (st1, sounds, Threw)
                       else
                         (case drawParticles gs center (balls st1) 0 of
                            (bs, frameKe, cs) \<Rightarrow>
                              (case observe observer frameKe (st1\<lparr>balls := bs\<rparr>) of
                                 (st2, snapshot) \<Rightarrow>
                                   (st2, sounds,
                                    Rendered \<lparr>circles = cs, emitted = snapshot\<rparr>)))))"

text \<open>
  A run of frames, each with the canvas and the settings current at that frame; the
  result is the final state and the outcome of every frame.
\<close>

fun run ::
  "bool \<Rightarrow> SimulationConfig \<Rightarrow> (Canvas option \<times> GlobalSettings) list \<Rightarrow> Engine \<Rightarrow>
   Engine \<times> outcome list" where
  "run observer config [] st = (st, [])"
| "run observer config ((canvas, gs) # rest) st =
     (case tick canvas observer gs config st of
        (st1, sounds, out) \<Rightarrow>
          (case run observer config rest st1 of (st2, outs) \<Rightarrow> (st2, out # outs)))"

text \<open>The canvas passes both early returns of \<open>tick\<close>.\<close>

definition usable :: "Canvas option \<Rightarrow> bool" where
  "usable canvas = (case canvas of None \<Rightarrow> False | Some cv \<Rightarrow> offsetParent cv \<and> context2d cv)"

text \<open>The frame was drawn; the frame called \<open>onStatsUpdate\<close>.\<close>

definition isRendered :: "outcome \<Rightarrow> bool" where
  "isRendered out = (case out of Rendered f \<Rightarrow> True | _ \<Rightarrow> False)"

definition emits :: "outcome \<Rightarrow> bool" where
  "emits out = (case out of Rendered f \<Rightarrow> emitted f \<noteq> None | _ \<Rightarrow> False)"

section \<open>Notions used to state the properties\<close>

text \<open>
  The container is centred at the origin of the local frame in which
  \<open>runPhysicsStep\<close> works. A vector \<open>n\<close> attached at a boundary point \<open>p\<close> points
  outward, away from the centre, when it has a positive component along \<open>p\<close>.
\<close>

definition pointsOutward :: "Vector2 \<Rightarrow> Vector2 \<Rightarrow> bool" where
  "pointsOutward n p = (dot n p > 0)"

text \<open>
  A sub-step without collisions: after the forces and the integration no particle
  penetrates an edge of the container and no two particles overlap, so neither
  collision pass acts.
\<close>

definition quietStep ::
  "GlobalSettings \<Rightarrow> SimulationConfig \<Rightarrow> Vector2 option \<Rightarrow> real \<Rightarrow> Vector2 list \<Rightarrow> Ball list \<Rightarrow> bool" where
  "quietStep gs config mouse dt localVertices bs =
     (let bs' = map (applyForces gs config mouse dt) bs
      in list_all (\<lambda>b. list_all (\<lambda>i. \<not> penetrating (localVertices ! i)
                                          (localVertices ! ((i + 1) mod length localVertices)) b)
                             [0 ..< length localVertices]) bs'
         \<and> list_all (\<lambda>ij. \<not> mag (sub (pos (bs' ! snd ij)) (pos (bs' ! fst ij)))
                             < radius (bs' ! fst ij) + radius (bs' ! snd ij))
                     (pairIndices (length bs')))"

text \<open>A frame without collisions: each of its \<open>n\<close> sub-steps is one.\<close>

fun quietRun ::
  "GlobalSettings \<Rightarrow> SimulationConfig \<Rightarrow> real \<Rightarrow> real \<Rightarrow> nat \<Rightarrow> Engine \<Rightarrow> bool" where
  "quietRun gs config shapeRadius subDt 0 st = True"
| "quietRun gs config shapeRadius subDt (Suc n) st =
     (let rot = rotation st + rotationSpeed config * rotationMultiplier gs * subDt;
          localVertices = containerVertices config shapeRadius \<lparr>x = 0, y = 0\<rparr> rot
      in quietStep gs config (mousePos st) subDt localVertices (balls st)
         \<and> quietRun gs config shapeRadius subDt n
             (st\<lparr>balls := map (applyForces gs config (mousePos st) subDt) (balls st),
                 rotation := rot\<rparr>))"

definition collisionFree :: "GlobalSettings \<Rightarrow> SimulationConfig \<Rightarrow> real \<Rightarrow> Engine \<Rightarrow> bool" where
  "collisionFree gs config shapeRadius st =
     quietRun gs config shapeRadius (timeScale gs / real (precision gs)) (precision gs) st"

section \<open>Concrete instances\<close>

text \<open>
  A vertical container edge at \<open>x = 10\<close> (the container centre is the origin of the
  local frame, to its left) and a particle with default identity, used to run the
  definitions on explicit inputs.
\<close>

definition wallP1 :: Vector2 where
  "wallP1 = \<lparr>x = 10, y = - 10\<rparr>"

definition wallP2 :: Vector2 where
  "wallP2 = \<lparr>x = 10, y = 10\<rparr>"

definition mkBall :: "Vector2 \<Rightarrow> Vector2 \<Rightarrow> real \<Rightarrow> Ball" where
  "mkBall p v r =
     \<lparr>ball_id = ''0-0'', pos = p, vel = v, acc = \<lparr>x = 0, y = 0\<rparr>, radius = r,
      color = ''#FFFFFF'', trail = []\<rparr>"

text \<open>
  A laid-out 800 by 600 canvas, the default settings of \<open>App.tsx\<close>, and a triangle
  simulation without particles.
\<close>

definition canvas800 :: Canvas where
  "canvas800 = \<lparr>offsetParent = True, context2d = True, clientWidth = 800, clientHeight = 600\<rparr>"

definition defaultSettings :: GlobalSettings where
  "defaultSettings =
     \<lparr>timeScale = 1.0, gravityMultiplier = 1.0, gravityAngle = 90, viscosity = 0.001,
      rotationMultiplier = 1.0, bouncinessMultiplier = 1.0, showVectors = False,
      showTrails = True, precision = 4, useHeatmap = True, enableAudio = False\<rparr>"

definition emptyTriangle :: SimulationConfig where
  "emptyTriangle =
     \<lparr>cfg_id = 1, name = ''empty'', shapeType = triangle, vertexCount = 3, gravity = 0.2,
      friction = 0.01, restitution = 0.9, rotationSpeed = 0.01, ballCount = 0, ballSize = 5,
      initialSpeed = 5, nuanceDescription = []\<rparr>"

text \<open>A random source that always returns 0, which lies in \<open>[0, 1)\<close>.\<close>

definition noRandom :: "nat \<Rightarrow> real" where
  "noRandom k = 0"

text \<open>
  A state at the end of a telemetry window: one particle of speed 2, nineteen frames
  observed, their kinetic energy 38 and 3 collisions accumulated.
\<close>

definition windowEnd :: Engine where
  "windowEnd =
     \<lparr>balls = [mkBall \<lparr>x = 0, y = 0\<rparr> \<lparr>x = 2, y = 0\<rparr> 5], rotation = 0, mousePos = None,
      collisionCount = 3, totalKe = 38, statsTick = 19\<rparr>"

text \<open>The state without particles in which a snapshot is due at the next frame.\<close>

definition emptyWindowEnd :: Engine where
  "emptyWindowEnd = initialEngine\<lparr>statsTick := 19\<rparr>"

text \<open>The default settings while paused, and the triangle simulation with one particle.\<close>

definition pausedSettings :: GlobalSettings where
  "pausedSettings = defaultSettings\<lparr>timeScale := 0\<rparr>"

definition oneBallTriangle :: SimulationConfig where
  "oneBallTriangle = emptyTriangle\<lparr>ballCount := 1\<rparr>"

text \<open>
  A square container without rotation and without gravity, with drag
  \<open>viscosity + friction = 0.75\<close>; a frame of two sub-steps; one particle at the centre
  moving with velocity \<open>(4, 0)\<close>.
\<close>

definition dragSquare :: SimulationConfig where
  "dragSquare =
     \<lparr>cfg_id = 2, name = ''drag'', shapeType = square, vertexCount = 4, gravity = 0,
      friction = 0.75, restitution = 0.9, rotationSpeed = 0, ballCount = 1, ballSize = 5,
      initialSpeed = 4, nuanceDescription = []\<rparr>"

definition twoSteps :: GlobalSettings where
  "twoSteps = defaultSettings\<lparr>viscosity := 0, precision := 2\<rparr>"

definition movingBall :: Engine where
  "movingBall = initialEngine\<lparr>balls := [mkBall \<lparr>x = 0, y = 0\<rparr> \<lparr>x = 4, y = 0\<rparr> 5]\<rparr>"

section \<open>Properties of the vector helpers\<close>

lemma mag_zero_iff: "mag v = 0 \<longleftrightarrow> x v = 0 \<and> y v = 0"
  by (simp add: mag_def add_nonneg_eq_0_iff)

lemma mag_sq: "mag v * mag v = x v * x v + y v * y v"
  by (simp add: mag_def)

lemma mag_eq_sqrt_dot: "mag v = sqrt (dot v v)"
  by (simp add: mag_def dot_def)

lemma dot_sub_left: "dot (sub a b) n = dot a n - dot b n"
  by (simp add: dot_def sub_def algebra_simps)

lemma dot_add_left: "dot (add a b) n = dot a n + dot b n"
  by (simp add: dot_def add_def algebra_simps)

lemma dot_mult_left: "dot (mult a s) n = s * dot a n"
  by (simp add: dot_def mult_def algebra_simps)

lemma dot_self_zero: "dot n n = 0 \<Longrightarrow> dot v n = 0"
  by (simp add: dot_def add_nonneg_eq_0_iff)

lemma mag_mult: "mag (mult v s) = \<bar>s\<bar> * mag v"
proof -
  have "x v * s * (x v * s) + y v * s * (y v * s) = s\<^sup>2 * (x v * x v + y v * y v)"
    by (simp add: power2_eq_square algebra_simps)
  then show ?thesis by (simp add: mag_def mult_def real_sqrt_mult)
qed

lemma sub_add_cancel_v: "sub (add a b) a = b"
  by (simp add: sub_def add_def)

lemma add_sub_impulse: "add (add va i) (sub vb i) = add va vb"
  by (simp add: add_def sub_def)

lemma dot_normalize_self:
  assumes "mag v \<noteq> 0"
  shows "dot (normalize_v v) (normalize_v v) = 1"
proof -
  have "dot (normalize_v v) (normalize_v v) = (x v * x v + y v * y v) / (mag v * mag v)"
    using assms by (simp add: normalize_v_def dot_def Let_def add_divide_distrib)
  also have "\<dots> = 1" using assms by (simp add: mag_sq[symmetric])
  finally show ?thesis .
qed

lemma dot_normalize_self_cases:
  "dot (normalize_v v) (normalize_v v) = (if mag v = 0 then 0 else 1)"
  by (simp add: dot_normalize_self) (simp add: normalize_v_def dot_def)

lemma dot_normalize_perp: "dot (normalize_v \<lparr>x = - y e, y = x e\<rparr>) e = 0"
  by (simp add: normalize_v_def dot_def Let_def)

section \<open>Properties of the edge normal\<close>

lemma dot_edgeNormal_self:
  "dot (edgeNormal p1 p2) (edgeNormal p1 p2) = (if x p1 = x p2 \<and> y p1 = y p2 then 0 else 1)"
proof -
  let ?v = "\<lparr>x = - y (sub p2 p1), y = x (sub p2 p1)\<rparr>"
  have m: "mag ?v = 0 \<longleftrightarrow> x p1 = x p2 \<and> y p1 = y p2"
    by (auto simp: mag_zero_iff sub_def)
  have "dot (edgeNormal p1 p2) (edgeNormal p1 p2) = dot (normalize_v ?v) (normalize_v ?v)"
    by (simp add: edgeNormal_def Let_def dot_def)
  then show ?thesis using m by (simp add: dot_normalize_self_cases)
qed

lemma mag_edgeNormal: "x p1 \<noteq> x p2 \<or> y p1 \<noteq> y p2 \<Longrightarrow> mag (edgeNormal p1 p2) = 1"
  by (auto simp: mag_eq_sqrt_dot dot_edgeNormal_self)

lemma edgeNormal_toward_center: "dot (edgeNormal p1 p2) p1 \<le> 0"
  by (auto simp: edgeNormal_def Let_def dot_def)

lemma edgeNormal_perp: "dot (edgeNormal p1 p2) (sub p2 p1) = 0"
  using dot_normalize_perp[of "sub p2 p1"]
  by (auto simp: edgeNormal_def Let_def dot_def)

lemma edgeNormal_unit_if:
  "dot v (edgeNormal p1 p2) \<noteq> 0 \<Longrightarrow> dot (edgeNormal p1 p2) (edgeNormal p1 p2) = 1"
  using dot_self_zero[of "edgeNormal p1 p2" v]
  by (auto simp: dot_edgeNormal_self split: if_splits)

lemma wall_normal: "edgeNormal wallP1 wallP2 = \<lparr>x = - 1, y = 0\<rparr>"
  by (simp add: edgeNormal_def wallP1_def wallP2_def sub_def normalize_v_def mag_def dot_def
        Let_def)

section \<open>Boundary collision: the worked scenario\<close>

text \<open>
  Claim C4. A particle of radius 5 whose centre is at signed distance 3 from an edge,
  with velocity component \<open>-2\<close> along the edge normal and effective restitution 0.5:
  one resolution of the edge moves the particle by exactly 2 units along the normal
  (the penetration depth \<open>radius - dist\<close>) and, by
  \<open>vel -= normal * (1 + e) * (vel . normal)\<close>, turns the normal component of its
  velocity into \<open>+1\<close>; the resolution counts as one collision.
\<close>

theorem boundary_scenario:
  assumes r: "radius ball = 5"
      and d: "edgeDist p1 p2 ball = 3"
      and v: "dot (vel ball) (edgeNormal p1 p2) = - 2"
      and e: "e = 1 / 2"
      and res: "collideEdge e audio p1 p2 (ball, count, sounds) = (ball', count', sounds')"
  shows "pos ball' = add (pos ball) (mult (edgeNormal p1 p2) 2)
       \<and> mag (sub (pos ball') (pos ball)) = 2
       \<and> vel ball' = sub (vel ball) (mult (edgeNormal p1 p2) ((1 + 1 / 2) * (- 2)))
       \<and> dot (vel ball') (edgeNormal p1 p2) = 1
       \<and> count' = count + 1"
proof -
  let ?n = "edgeNormal p1 p2"
  have nz: "dot ?n ?n = 1"
    using v edgeNormal_unit_if[of "vel ball" p1 p2] by simp
  have unit: "mag ?n = 1" using nz by (simp add: mag_eq_sqrt_dot)
  from res r d v e
  have p: "pos ball' = add (pos ball) (mult ?n 2)"
   and w: "vel ball' = sub (vel ball) (mult ?n ((1 + 1 / 2) * (- 2)))"
   and c: "count' = count + 1"
    by (auto simp: collideEdge_def Let_def)
  have m: "mag (sub (pos ball') (pos ball)) = 2"
    using unit by (simp add: p sub_add_cancel_v mag_mult)
  have "dot (vel ball') ?n = 1"
    using v nz by (simp add: w dot_sub_left dot_mult_left)
  with p m w c show ?thesis by simp
qed

text \<open>
  The scenario at the edge \<open>x = 10\<close>: the particle at \<open>(7, 0)\<close> moving right with
  speed 2 ends at \<open>(5, 0)\<close>, moving left with speed 1.
\<close>

theorem boundary_scenario_witness:
  "radius (mkBall \<lparr>x = 7, y = 0\<rparr> \<lparr>x = 2, y = 0\<rparr> 5) = 5
   \<and> edgeDist wallP1 wallP2 (mkBall \<lparr>x = 7, y = 0\<rparr> \<lparr>x = 2, y = 0\<rparr> 5) = 3
   \<and> dot (vel (mkBall \<lparr>x = 7, y = 0\<rparr> \<lparr>x = 2, y = 0\<rparr> 5)) (edgeNormal wallP1 wallP2) = - 2
   \<and> pos (fst (collideEdge (1 / 2) False wallP1 wallP2
                 (mkBall \<lparr>x = 7, y = 0\<rparr> \<lparr>x = 2, y = 0\<rparr> 5, 0, []))) = \<lparr>x = 5, y = 0\<rparr>
   \<and> dot (vel (fst (collideEdge (1 / 2) False wallP1 wallP2
                      (mkBall \<lparr>x = 7, y = 0\<rparr> \<lparr>x = 2, y = 0\<rparr> 5, 0, []))))
         (edgeNormal wallP1 wallP2) = 1"
proof -
  let ?b = "mkBall \<lparr>x = 7, y = 0\<rparr> \<lparr>x = 2, y = 0\<rparr> 5"
  let ?r = "collideEdge (1 / 2) False wallP1 wallP2 (?b, 0, [])"
  have h1: "radius ?b = 5" by (simp add: mkBall_def)
  have h2: "edgeDist wallP1 wallP2 ?b = 3"
    by (simp add: edgeDist_def wall_normal) (simp add: mkBall_def wallP1_def sub_def dot_def)
  have h3: "dot (vel ?b) (edgeNormal wallP1 wallP2) = - 2"
    by (simp add: wall_normal) (simp add: mkBall_def dot_def)
  have h5: "?r = (fst ?r, fst (snd ?r), snd (snd ?r))" by simp
  have p: "add (pos ?b) (mult (edgeNormal wallP1 wallP2) 2) = \<lparr>x = 5, y = 0\<rparr>"
    by (simp add: wall_normal) (simp add: mkBall_def add_def mult_def)
  note t = boundary_scenario[OF h1 h2 h3 refl h5]
  from t have c1: "pos (fst ?r) = \<lparr>x = 5, y = 0\<rparr>" unfolding p by (rule conjunct1)
  from t have c4: "dot (vel (fst ?r)) (edgeNormal wallP1 wallP2) = 1" by blast
  from h1 h2 h3 c1 c4 show ?thesis by blast
qed

section \<open>Pairwise collision resolution\<close>

text \<open>What one resolution does to the two velocities, by whether an impulse is applied.\<close>

lemma collidePair_vel:
  "collidePair e a b = (a', b', hit) \<Longrightarrow>
   (hit \<noteq> None \<longrightarrow>
      mag (sub (pos b) (pos a)) < radius a + radius b
      \<and> sepVel a b (pairNormal a b) < 0
      \<and> hit = Some \<bar>sepVel a b (pairNormal a b)\<bar>
      \<and> vel a' = add (vel a) (mult (pairNormal a b) (sepVel a b (pairNormal a b) * (1 + e) / 2))
      \<and> vel b' = sub (vel b) (mult (pairNormal a b) (sepVel a b (pairNormal a b) * (1 + e) / 2)))
   \<and> (hit = None \<longrightarrow> vel a' = vel a \<and> vel b' = vel b
         \<and> \<not> (mag (sub (pos b) (pos a)) < radius a + radius b
              \<and> sepVel a b (pairNormal a b) < 0))"
  by (auto simp: collidePair_def Let_def sepVel_def pairNormal_def split: if_splits)

lemma pairNormal_unit_if:
  "sepVel a b (pairNormal a b) \<noteq> 0 \<Longrightarrow> dot (pairNormal a b) (pairNormal a b) = 1"
  using dot_self_zero[of "pairNormal a b" "sub (vel b) (vel a)"]
  by (auto simp: sepVel_def pairNormal_def dot_normalize_self_cases split: if_splits)

text \<open>
  Claim C5. Every pairwise resolution adds an impulse to one particle and subtracts the
  same impulse from the other, so the sum of the two velocities is unchanged. With
  effective restitution 1, a resolution that applies an impulse exchanges the normal
  components of the two velocities and leaves their tangential parts as they were.
\<close>

theorem pair_momentum:
  assumes res: "collidePair e a b = (a', b', hit)"
  shows "add (vel a') (vel b') = add (vel a) (vel b)
       \<and> (e = 1 \<and> hit \<noteq> None \<longrightarrow>
            dot (vel a') (pairNormal a b) = dot (vel b) (pairNormal a b)
          \<and> dot (vel b') (pairNormal a b) = dot (vel a) (pairNormal a b)
          \<and> sub (vel a') (mult (pairNormal a b) (dot (vel a') (pairNormal a b)))
              = sub (vel a) (mult (pairNormal a b) (dot (vel a) (pairNormal a b)))
          \<and> sub (vel b') (mult (pairNormal a b) (dot (vel b') (pairNormal a b)))
              = sub (vel b) (mult (pairNormal a b) (dot (vel b) (pairNormal a b))))"
proof -
  let ?n = "pairNormal a b"
  let ?s = "sepVel a b ?n"
  note cv = collidePair_vel[OF res]
  have sum: "add (vel a') (vel b') = add (vel a) (vel b)"
  proof (cases hit)
    case None with cv show ?thesis by simp
  next
    case (Some f) with cv show ?thesis by (simp add: add_sub_impulse)
  qed
  have ex: "dot (vel a') ?n = dot (vel b) ?n \<and> dot (vel b') ?n = dot (vel a) ?n
          \<and> sub (vel a') (mult ?n (dot (vel a') ?n)) = sub (vel a) (mult ?n (dot (vel a) ?n))
          \<and> sub (vel b') (mult ?n (dot (vel b') ?n)) = sub (vel b) (mult ?n (dot (vel b) ?n))"
    if e1: "e = 1" and h: "hit \<noteq> None"
  proof -
    from cv h e1 have s: "?s < 0"
      and va: "vel a' = add (vel a) (mult ?n ?s)"
      and vb: "vel b' = sub (vel b) (mult ?n ?s)" by auto
    from s have u: "dot ?n ?n = 1" using pairNormal_unit_if[of a b] by simp
    have sd: "?s = dot (vel b) ?n - dot (vel a) ?n" by (simp add: sepVel_def dot_sub_left)
    have da: "dot (vel a') ?n = dot (vel b) ?n"
      by (simp add: va dot_add_left dot_mult_left u) (simp add: sd)
    have db: "dot (vel b') ?n = dot (vel a) ?n"
      by (simp add: vb dot_sub_left dot_mult_left u) (simp add: sd)
    have ta: "sub (vel a') (mult ?n (dot (vel a') ?n)) = sub (vel a) (mult ?n (dot (vel a) ?n))"
      unfolding da unfolding va sd by (simp add: add_def sub_def mult_def algebra_simps)
    have tb: "sub (vel b') (mult ?n (dot (vel b') ?n)) = sub (vel b) (mult ?n (dot (vel b) ?n))"
      unfolding db unfolding vb sd by (simp add: add_def sub_def mult_def algebra_simps)
    from da db ta tb show ?thesis by blast
  qed
  from sum ex show ?thesis by blast
qed

text \<open>
  Two particles of radius 5, centres 8 apart on the x axis, approaching head-on with
  unit speeds, restitution 1: they leave with the velocities exchanged.
\<close>

theorem pair_momentum_witness:
  "(case collidePair 1 (mkBall \<lparr>x = 0, y = 0\<rparr> \<lparr>x = 1, y = 0\<rparr> 5)
                       (mkBall \<lparr>x = 8, y = 0\<rparr> \<lparr>x = - 1, y = 0\<rparr> 5) of
      (a', b', hit) \<Rightarrow>
        hit \<noteq> None \<and> vel a' = \<lparr>x = - 1, y = 0\<rparr> \<and> vel b' = \<lparr>x = 1, y = 0\<rparr>
        \<and> add (vel a') (vel b') = add \<lparr>x = 1, y = 0\<rparr> \<lparr>x = - 1, y = 0\<rparr>)"
proof -
  let ?a = "mkBall \<lparr>x = 0, y = 0\<rparr> \<lparr>x = 1, y = 0\<rparr> 5"
  let ?b = "mkBall \<lparr>x = 8, y = 0\<rparr> \<lparr>x = - 1, y = 0\<rparr> 5"
  obtain a' b' hit where r: "collidePair 1 ?a ?b = (a', b', hit)"
    by (metis prod_cases3)
  have ev: "collidePair 1 ?a ?b
              = (?a\<lparr>pos := \<lparr>x = - 1, y = 0\<rparr>, vel := \<lparr>x = - 1, y = 0\<rparr>\<rparr>,
                 ?b\<lparr>pos := \<lparr>x = 9, y = 0\<rparr>, vel := \<lparr>x = 1, y = 0\<rparr>\<rparr>, Some 2)"
    by (simp add: collidePair_def mkBall_def normalize_v_def mag_def sub_def add_def mult_def
          dot_def Let_def)
  from r ev have h: "hit \<noteq> None" and va: "vel a' = \<lparr>x = - 1, y = 0\<rparr>"
    and vb: "vel b' = \<lparr>x = 1, y = 0\<rparr>" by auto
  from pair_momentum[OF r]
  have "add (vel a') (vel b') = add (vel ?a) (vel ?b)" by (rule conjunct1)
  then have "add (vel a') (vel b') = add \<lparr>x = 1, y = 0\<rparr> \<lparr>x = - 1, y = 0\<rparr>"
    by (simp add: mkBall_def)
  with h va vb show ?thesis by (simp add: r)
qed

text \<open>
  Claim C9. In a pairwise resolution of two overlapping particles whose separating
  velocity \<open>s = dot(b.vel - a.vel, normal)\<close> is negative (approaching), the
  separating velocity after the impulse, along the same normal, is exactly \<open>- e * s\<close>
  for the effective restitution \<open>e\<close>. Hence for a restitution coefficient
  \<open>0 \<le> e \<le> 1\<close> the relative normal speed never increases (the bound holds for
  every \<open>\<bar>e\<bar> \<le> 1\<close>), and for \<open>e = 0\<close> it becomes zero.
\<close>

theorem pair_separating_velocity:
  assumes res: "collidePair e a b = (a', b', hit)"
      and ov: "mag (sub (pos b) (pos a)) < radius a + radius b"
      and s: "sepVel a b (pairNormal a b) < 0"
  shows "sepVel a' b' (pairNormal a b) = - e * sepVel a b (pairNormal a b)
       \<and> (0 \<le> e \<and> e \<le> 1 \<longrightarrow>
            \<bar>sepVel a' b' (pairNormal a b)\<bar> \<le> \<bar>sepVel a b (pairNormal a b)\<bar>)
       \<and> (\<bar>e\<bar> \<le> 1 \<longrightarrow> \<bar>sepVel a' b' (pairNormal a b)\<bar> \<le> \<bar>sepVel a b (pairNormal a b)\<bar>)
       \<and> (e = 0 \<longrightarrow> sepVel a' b' (pairNormal a b) = 0)"
proof -
  let ?n = "pairNormal a b"
  let ?s = "sepVel a b ?n"
  note cv = collidePair_vel[OF res]
  from cv ov s have h: "hit \<noteq> None" by blast
  with cv have va: "vel a' = add (vel a) (mult ?n (?s * (1 + e) / 2))"
    and vb: "vel b' = sub (vel b) (mult ?n (?s * (1 + e) / 2))" by auto
  from s have u: "dot ?n ?n = 1" using pairNormal_unit_if[of a b] by simp
  have "sepVel a' b' ?n = (dot (vel b) ?n - dot (vel a) ?n) - ?s * (1 + e)"
    by (simp add: sepVel_def[of a' b'] va vb dot_sub_left dot_add_left dot_mult_left u)
  also have "dot (vel b) ?n - dot (vel a) ?n = ?s" by (simp add: sepVel_def dot_sub_left)
  finally have eq: "sepVel a' b' ?n = - e * ?s" by (simp add: algebra_simps)
  have le: "\<bar>sepVel a' b' ?n\<bar> \<le> \<bar>?s\<bar>" if "\<bar>e\<bar> \<le> 1"
  proof -
    have "\<bar>sepVel a' b' ?n\<bar> = \<bar>e\<bar> * \<bar>?s\<bar>" by (simp add: eq abs_mult)
    also have "\<dots> \<le> 1 * \<bar>?s\<bar>" using that by (intro mult_right_mono) simp_all
    finally show ?thesis by simp
  qed
  have le01: "\<bar>sepVel a' b' ?n\<bar> \<le> \<bar>?s\<bar>" if "0 \<le> e \<and> e \<le> 1"
    using that by (intro le) simp
  have z: "e = 0 \<longrightarrow> sepVel a' b' ?n = 0" by (simp add: eq)
  from eq le01 le z show ?thesis by blast
qed

text \<open>
  The head-on pair of two particles of radius 5, centres 8 apart, with restitution
  0.5: the separating velocity goes from \<open>-2\<close> to \<open>+1\<close>, and the relative normal
  speed from 2 to 1.
\<close>

theorem pair_separating_velocity_witness:
  "(0 :: real) \<le> 1 / 2 \<and> (1 / 2 :: real) \<le> 1
   \<and> mag (sub (pos (mkBall \<lparr>x = 8, y = 0\<rparr> \<lparr>x = - 1, y = 0\<rparr> 5))
              (pos (mkBall \<lparr>x = 0, y = 0\<rparr> \<lparr>x = 1, y = 0\<rparr> 5))) < 5 + 5
   \<and> sepVel (mkBall \<lparr>x = 0, y = 0\<rparr> \<lparr>x = 1, y = 0\<rparr> 5) (mkBall \<lparr>x = 8, y = 0\<rparr> \<lparr>x = - 1, y = 0\<rparr> 5)
        (pairNormal (mkBall \<lparr>x = 0, y = 0\<rparr> \<lparr>x = 1, y = 0\<rparr> 5)
                    (mkBall \<lparr>x = 8, y = 0\<rparr> \<lparr>x = - 1, y = 0\<rparr> 5)) = - 2
   \<and> (case collidePair (1 / 2) (mkBall \<lparr>x = 0, y = 0\<rparr> \<lparr>x = 1, y = 0\<rparr> 5)
                               (mkBall \<lparr>x = 8, y = 0\<rparr> \<lparr>x = - 1, y = 0\<rparr> 5) of
        (a', b', hit) \<Rightarrow>
          sepVel a' b' (pairNormal (mkBall \<lparr>x = 0, y = 0\<rparr> \<lparr>x = 1, y = 0\<rparr> 5)
                                   (mkBall \<lparr>x = 8, y = 0\<rparr> \<lparr>x = - 1, y = 0\<rparr> 5)) = 1
          \<and> \<bar>sepVel a' b' (pairNormal (mkBall \<lparr>x = 0, y = 0\<rparr> \<lparr>x = 1, y = 0\<rparr> 5)
                                     (mkBall \<lparr>x = 8, y = 0\<rparr> \<lparr>x = - 1, y = 0\<rparr> 5))\<bar>
              \<le> \<bar>- 2 :: real\<bar>)"
proof -
  let ?a = "mkBall \<lparr>x = 0, y = 0\<rparr> \<lparr>x = 1, y = 0\<rparr> 5"
  let ?b = "mkBall \<lparr>x = 8, y = 0\<rparr> \<lparr>x = - 1, y = 0\<rparr> 5"
  obtain a' b' hit where r: "collidePair (1 / 2) ?a ?b = (a', b', hit)"
    by (metis prod_cases3)
  have ov: "mag (sub (pos ?b) (pos ?a)) < radius ?a + radius ?b"
    by (simp add: mkBall_def mag_def sub_def)
  have s: "sepVel ?a ?b (pairNormal ?a ?b) = - 2"
    by (simp add: sepVel_def pairNormal_def mkBall_def normalize_v_def mag_def sub_def dot_def)
  then have s0: "sepVel ?a ?b (pairNormal ?a ?b) < 0" by simp
  have rng: "(0 :: real) \<le> 1 / 2 \<and> (1 / 2 :: real) \<le> 1" by simp
  note th = pair_separating_velocity[OF r ov s0]
  from th have "sepVel a' b' (pairNormal ?a ?b) = - (1 / 2) * sepVel ?a ?b (pairNormal ?a ?b)"
    by (rule conjunct1)
  then have v: "sepVel a' b' (pairNormal ?a ?b) = 1" by (simp add: s)
  from th rng have "\<bar>sepVel a' b' (pairNormal ?a ?b)\<bar> \<le> \<bar>sepVel ?a ?b (pairNormal ?a ?b)\<bar>"
    by blast
  then have b: "\<bar>sepVel a' b' (pairNormal ?a ?b)\<bar> \<le> \<bar>- 2 :: real\<bar>" by (simp only: s)
  have o: "mag (sub (pos ?b) (pos ?a)) < 5 + 5" using ov by (simp add: mkBall_def)
  from rng o s v b show ?thesis by (simp add: r)
qed

section \<open>Structure of a frame\<close>

lemma containerVertices_Nil: "containerVertices config r c rot = [] \<longleftrightarrow> vertexCount config = 0"
  by (simp add: containerVertices_def generateStar_def generatePolygon_def)

lemma observe_cases:
  assumes "observe observer ke st = (st', snap)"
  shows "(statsTick st + 1 \<ge> 20 \<longrightarrow>
            st' = st\<lparr>totalKe := 0, collisionCount := 0, statsTick := 0\<rparr>
          \<and> snap = (if observer
                     then Some (js_div (totalKe st + ke) (20 * real (length (balls st))),
                                collisionCount st)
                     else None))
       \<and> (statsTick st + 1 < 20 \<longrightarrow>
            st' = st\<lparr>totalKe := totalKe st + ke, statsTick := statsTick st + 1\<rparr> \<and> snap = None)"
  using assms by (auto simp: observe_def Let_def)

lemma tick_unusable: "\<not> usable canvas \<Longrightarrow> tick canvas observer gs config st = (st, [], Skipped)"
  by (auto simp: tick_def usable_def split: option.splits)

lemma tick_threw:
  "usable (Some cv) \<Longrightarrow> vertexCount config = 0 \<Longrightarrow>
   tick (Some cv) observer gs config st =
     (fst (advance gs config (frameRadius cv) st), snd (advance gs config (frameRadius cv) st), Threw)"
  by (simp add: tick_def usable_def Let_def containerVertices_Nil split: prod.splits)

lemma tick_rendered:
  "usable (Some cv) \<Longrightarrow> vertexCount config \<noteq> 0 \<Longrightarrow>
   tick (Some cv) observer gs config st =
     (case advance gs config (frameRadius cv) st of
        (st1, sounds) \<Rightarrow>
          (case drawParticles gs (frameCenter cv) (balls st1) 0 of
             (bs, frameKe, cs) \<Rightarrow>
               (case observe observer frameKe (st1\<lparr>balls := bs\<rparr>) of
                  (st2, snapshot) \<Rightarrow>
                    (st2, sounds, Rendered \<lparr>circles = cs, emitted = snapshot\<rparr>))))"
  by (simp add: tick_def usable_def Let_def containerVertices_Nil split: prod.splits)

section \<open>What the physics leaves alone\<close>

lemma collideEdge_keeps:
  assumes "\<And>b p. f (b\<lparr>pos := p\<rparr>) = f b" and "\<And>b v. f (b\<lparr>vel := v\<rparr>) = f b"
  shows "f (fst (collideEdge e audio p1 p2 s)) = f (fst s)"
  by (cases s) (auto simp: collideEdge_def Let_def assms)

lemma fold_collideEdge_keeps:
  assumes "\<And>b p. f (b\<lparr>pos := p\<rparr>) = f b" and "\<And>b v. f (b\<lparr>vel := v\<rparr>) = f b"
  shows "f (fst (fold (\<lambda>i. collideEdge e audio (p i) (q i)) is s)) = f (fst s)"
  by (induction "is" arbitrary: s) (simp_all add: collideEdge_keeps[where f = f] assms)

lemma collideEdges_keeps:
  assumes "\<And>b p. f (b\<lparr>pos := p\<rparr>) = f b" and "\<And>b v. f (b\<lparr>vel := v\<rparr>) = f b"
  shows "f (fst (collideEdges e audio vs s)) = f (fst s)"
  unfolding collideEdges_def by (rule fold_collideEdge_keeps[where f = f]) (rule assms)+

lemma applyForces_keeps:
  assumes "\<And>b p. f (b\<lparr>pos := p\<rparr>) = f b" and "\<And>b v. f (b\<lparr>vel := v\<rparr>) = f b"
  shows "f (applyForces gs config mouse dt b) = f b"
  by (simp add: applyForces_def Let_def assms)

lemma forEachBall_keeps:
  assumes "\<And>b p. f (b\<lparr>pos := p\<rparr>) = f b" and "\<And>b v. f (b\<lparr>vel := v\<rparr>) = f b"
  shows "map f (fst (forEachBall gs config mouse dt vs bs fx)) = map f bs"
proof (induction bs arbitrary: fx)
  case Nil
  show ?case by simp
next
  case (Cons b bs)
  obtain b' fx' where c: "collideEdges (effectiveRestitution config gs) (enableAudio gs) vs
      (applyForces gs config mouse dt b, fx) = (b', fx')" by (metis surj_pair)
  have "f b' = f b"
    using collideEdges_keeps[where f = f, OF assms, of "effectiveRestitution config gs"
        "enableAudio gs" vs "(applyForces gs config mouse dt b, fx)"]
    by (simp add: c applyForces_keeps[where f = f, OF assms])
  then show ?case using Cons.IH[of fx'] by (auto simp: c split: prod.splits)
qed

lemma collidePair_keeps:
  assumes "\<And>b p. f (b\<lparr>pos := p\<rparr>) = f b" and "\<And>b v. f (b\<lparr>vel := v\<rparr>) = f b"
  shows "collidePair e a b = (a', b', hit) \<Longrightarrow> f a' = f a \<and> f b' = f b"
  by (auto simp: collidePair_def Let_def assms split: if_splits)

lemma map_update_same: "f v = f (bs ! i) \<Longrightarrow> map f (bs[i := v]) = map f bs"
  by (cases "i < length bs") (simp_all add: map_update list_update_same_conv list_update_beyond)

lemma pairStep_keeps:
  assumes "\<And>b p. f (b\<lparr>pos := p\<rparr>) = f b" and "\<And>b v. f (b\<lparr>vel := v\<rparr>) = f b"
  shows "map f (fst (pairStep e audio ij s)) = map f (fst s)"
proof -
  obtain i j where ij: "ij = (i, j)" by (cases ij)
  obtain bs count sounds where s: "s = (bs, count, sounds)" by (cases s)
  obtain a' b' hit where c: "collidePair e (bs ! i) (bs ! j) = (a', b', hit)" by (metis prod_cases3)
  from collidePair_keeps[where f = f, OF assms c] have k: "f a' = f (bs ! i)" "f b' = f (bs ! j)" by simp_all
  have "map f ((bs[i := a'])[j := b']) = map f bs"
  proof (cases "i = j")
    case True
    then show ?thesis using k by (simp add: map_update_same)
  next
    case False
    then have "f b' = f ((bs[i := a']) ! j)" using k by simp
    then have "map f ((bs[i := a'])[j := b']) = map f (bs[i := a'])" by (rule map_update_same)
    then show ?thesis using k by (simp add: map_update_same)
  qed
  then show ?thesis by (simp add: pairStep_def ij s c)
qed

lemma fold_pairStep_keeps:
  assumes "\<And>b p. f (b\<lparr>pos := p\<rparr>) = f b" and "\<And>b v. f (b\<lparr>vel := v\<rparr>) = f b"
  shows "map f (fst (fold (pairStep e audio) ps s)) = map f (fst s)"
  by (induction ps arbitrary: s) (simp_all add: pairStep_keeps[where f = f, OF assms])

lemma runPhysicsStep_keeps:
  assumes "\<And>b p. f (b\<lparr>pos := p\<rparr>) = f b" and "\<And>b v. f (b\<lparr>vel := v\<rparr>) = f b"
  shows "map f (fst (runPhysicsStep gs config mouse dt vs s)) = map f (fst s)"
  by (simp add: runPhysicsStep_def collidePairs_def fold_pairStep_keeps[where f = f, OF assms]
        forEachBall_keeps[where f = f, OF assms])

lemma subSteps_keeps:
  assumes "\<And>b p. f (b\<lparr>pos := p\<rparr>) = f b" and "\<And>b v. f (b\<lparr>vel := v\<rparr>) = f b"
  shows "map f (balls (fst (subSteps gs config r dt n s))) = map f (balls (fst s))"
proof (induction n arbitrary: s)
  case 0
  show ?case by simp
next
  case (Suc n)
  obtain st sounds where s: "s = (st, sounds)" by (cases s)
  let ?rot = "rotation st + rotationSpeed config * rotationMultiplier gs * dt"
  let ?vs = "containerVertices config r \<lparr>x = 0, y = 0\<rparr> ?rot"
  obtain bs count sounds' where p: "runPhysicsStep gs config (mousePos st) dt ?vs
      (balls st, collisionCount st, sounds) = (bs, count, sounds')" by (metis prod_cases3)
  have "map f bs = map f (balls st)"
    using runPhysicsStep_keeps[where f = f, OF assms, of gs config "mousePos st" dt ?vs
        "(balls st, collisionCount st, sounds)"] by (simp add: p)
  then show ?case
    using Suc.IH[of "(st\<lparr>balls := bs, rotation := ?rot, collisionCount := count\<rparr>, sounds')"]
    by (simp add: s p Let_def)
qed

lemma subSteps_refs:
  "statsTick (fst (subSteps gs config r dt n s)) = statsTick (fst s)
   \<and> totalKe (fst (subSteps gs config r dt n s)) = totalKe (fst s)
   \<and> mousePos (fst (subSteps gs config r dt n s)) = mousePos (fst s)"
proof (induction n arbitrary: s)
  case 0
  show ?case by simp
next
  case (Suc n)
  obtain st sounds where s: "s = (st, sounds)" by (cases s)
  show ?case by (simp add: s Let_def Suc.IH split: prod.splits)
qed

lemma advance_keeps:
  assumes "\<And>b p. f (b\<lparr>pos := p\<rparr>) = f b" and "\<And>b v. f (b\<lparr>vel := v\<rparr>) = f b"
  shows "map f (balls (fst (advance gs config r st))) = map f (balls st)"
  by (simp add: advance_def Let_def subSteps_keeps[where f = f, OF assms])

lemma advance_refs:
  "statsTick (fst (advance gs config r st)) = statsTick st
   \<and> totalKe (fst (advance gs config r st)) = totalKe st
   \<and> mousePos (fst (advance gs config r st)) = mousePos st"
  by (simp add: advance_def Let_def subSteps_refs)

lemma advance_paused: "timeScale gs \<le> 0 \<Longrightarrow> advance gs config r st = (st, [])"
  by (simp add: advance_def)

lemma drawParticles_balls:
  "fst (drawParticles gs c bs ke)
     = map (\<lambda>b. b\<lparr>trail := updateTrail gs (screenPos c b) (trail b)\<rparr>) bs"
  by (induction bs arbitrary: ke) (simp_all add: Let_def screenPos_def split_beta)

lemma drawParticles_circles:
  "snd (snd (drawParticles gs c bs ke))
     = map (\<lambda>b. (x c + x (pos b), y c + y (pos b), radius b)) bs"
  by (induction bs arbitrary: ke) (simp_all add: Let_def split_beta)

lemma drawParticles_ke:
  "fst (snd (drawParticles gs c bs ke)) = ke + (\<Sum>b\<leftarrow>bs. 0.5 * mag (vel b) * mag (vel b))"
  by (induction bs arbitrary: ke) (simp_all add: Let_def split_beta)

lemma advance_length: "length (balls (fst (advance gs config r st))) = length (balls st)"
  using advance_keeps[where f = "\<lambda>b. ()", of gs config r st] 
  by (metis length_map)

lemma runPhysicsStep_empty: "runPhysicsStep gs config mouse dt vs ([], fx) = ([], fx)"
  by (simp add: runPhysicsStep_def collidePairs_def pairIndices_def)

lemma subSteps_empty:
  "balls (fst s) = [] \<Longrightarrow>
   collisionCount (fst (subSteps gs config r dt n s)) = collisionCount (fst s)
   \<and> snd (subSteps gs config r dt n s) = snd s"
proof (induction n arbitrary: s)
  case 0
  show ?case by simp
next
  case (Suc n)
  obtain st sounds where s: "s = (st, sounds)" by (cases s)
  with Suc.prems have e: "balls st = []" by simp
  show ?case
    using Suc.IH[of "(st\<lparr>balls := [], rotation := rotation st
        + rotationSpeed config * rotationMultiplier gs * dt, collisionCount := collisionCount st\<rparr>, sounds)"]
    by (simp add: s e Let_def runPhysicsStep_empty)
qed

lemma advance_empty:
  "balls st = [] \<Longrightarrow>
   collisionCount (fst (advance gs config r st)) = collisionCount st
   \<and> snd (advance gs config r st) = []"
  by (simp add: advance_def Let_def subSteps_empty)

section \<open>Frames without particles\<close>

lemma js_div_zero:
  "js_div a 0 \<noteq> Finite v \<and> (a = 0 \<longrightarrow> js_div a 0 = NaN) \<and> (a > 0 \<longrightarrow> js_div a 0 = PosInfinity)"
  by (simp add: js_div_def)

lemma tick_empty:
  assumes u: "usable canvas" and vc: "vertexCount config \<noteq> 0" and e: "balls st = []"
      and t: "tick canvas observer gs config st = (st', sounds, out)"
  shows "sounds = [] \<and> balls st' = [] \<and> mousePos st' = mousePos st
       \<and> (statsTick st + 1 < 20 \<longrightarrow>
            out = Rendered \<lparr>circles = [], emitted = None\<rparr> \<and> totalKe st' = totalKe st
          \<and> collisionCount st' = collisionCount st \<and> statsTick st' = statsTick st + 1)
       \<and> (statsTick st + 1 \<ge> 20 \<longrightarrow>
            out = Rendered \<lparr>circles = [],
                    emitted = (if observer then Some (js_div (totalKe st) 0, collisionCount st)
                               else None)\<rparr>
          \<and> totalKe st' = 0 \<and> collisionCount st' = 0 \<and> statsTick st' = 0)"
proof -
  from u obtain cv where cv: "canvas = Some cv" by (auto simp: usable_def split: option.splits)
  obtain st0 snd0 where a: "advance gs config (frameRadius cv) st = (st0, snd0)" by (metis surj_pair)
  have b0: "balls st0 = []" using advance_length[of gs config "frameRadius cv" st] e by (simp add: a)
  have c0: "collisionCount st0 = collisionCount st" "snd0 = []"
    using advance_empty[OF e, of gs config "frameRadius cv"] by (simp_all add: a)
  have r0: "statsTick st0 = statsTick st" "totalKe st0 = totalKe st" "mousePos st0 = mousePos st"
    using advance_refs[of gs config "frameRadius cv" st] by (simp_all add: a)
  obtain st2 snap where ob: "observe observer 0 (st0\<lparr>balls := []\<rparr>) = (st2, snap)" by (metis surj_pair)
  from t u vc have r: "st' = st2" "sounds = []" "out = Rendered \<lparr>circles = [], emitted = snap\<rparr>"
    by (simp_all add: cv tick_rendered a b0 c0 ob)
  from observe_cases[OF ob] show ?thesis
    by (auto simp: r b0 c0 r0)
qed

lemma run_append:
  "run observer config (fs @ gs) st =
     (fst (run observer config gs (fst (run observer config fs st))),
      snd (run observer config fs st) @ snd (run observer config gs (fst (run observer config fs st))))"
proof (induction fs arbitrary: st)
  case Nil
  show ?case by simp
next
  case (Cons f fs)
  obtain canvas s where f: "f = (canvas, s)" by (cases f)
  show ?case by (simp add: f Cons.IH split_beta)
qed

lemma run_empty:
  assumes vc: "vertexCount config \<noteq> 0"
  shows "\<forall>f \<in> set fs. usable (fst f) \<Longrightarrow> balls st = [] \<Longrightarrow> statsTick st + length fs < 20 \<Longrightarrow>
         balls (fst (run observer config fs st)) = []
       \<and> totalKe (fst (run observer config fs st)) = totalKe st
       \<and> collisionCount (fst (run observer config fs st)) = collisionCount st
       \<and> statsTick (fst (run observer config fs st)) = statsTick st + length fs"
proof (induction fs arbitrary: st)
  case Nil
  then show ?case by simp
next
  case (Cons f fs)
  obtain canvas gs where f: "f = (canvas, gs)" by (cases f)
  obtain st1 sounds out where t: "tick canvas observer gs config st = (st1, sounds, out)"
    by (metis prod_cases3)
  from Cons.prems have u: "usable canvas" by (simp add: f)
  from Cons.prems have lt: "statsTick st + 1 < 20" by simp
  from tick_empty[OF u vc Cons.prems(2) t] lt
  have s1: "balls st1 = []" "totalKe st1 = totalKe st" "collisionCount st1 = collisionCount st"
    "statsTick st1 = statsTick st + 1" by simp_all
  have "statsTick st1 + length fs < 20" using Cons.prems(3) by (simp add: s1)
  from Cons.IH[OF _ s1(1) this] Cons.prems(1) show ?case
    by (simp add: f t s1 split_beta)
qed


section \<open>Telemetry\<close>

text \<open>
  The tick counter over a frame: a drawn frame advances it modulo 20 and calls the
  observer exactly when it was 19; a frame that is not drawn leaves it alone.
\<close>

lemma tick_stats:
  assumes t: "tick canvas True gs config st = (st1, sounds, out)"
      and inv: "statsTick st < 20"
  shows "(isRendered out \<longrightarrow> statsTick st1 = (statsTick st + 1) mod 20
                              \<and> (emits out \<longleftrightarrow> statsTick st = 19))
       \<and> (\<not> isRendered out \<longrightarrow> statsTick st1 = statsTick st)"
proof (cases "usable canvas")
  case False
  with t show ?thesis by (simp add: tick_unusable isRendered_def)
next
  case True
  then obtain cv where cv: "canvas = Some cv" by (auto simp: usable_def split: option.splits)
  show ?thesis
  proof (cases "vertexCount config = 0")
    case True
    with t \<open>usable canvas\<close> show ?thesis
      by (auto simp: cv tick_threw isRendered_def advance_refs)
  next
    case False
    obtain st0 snd0 where a: "advance gs config (frameRadius cv) st = (st0, snd0)" by (metis surj_pair)
    obtain bs ke cs where d: "drawParticles gs (frameCenter cv) (balls st0) 0 = (bs, ke, cs)"
      by (metis prod_cases3)
    obtain st2 snap where ob: "observe True ke (st0\<lparr>balls := bs\<rparr>) = (st2, snap)" by (metis surj_pair)
    from t have e: "st1 = st2" "out = Rendered \<lparr>circles = cs, emitted = snap\<rparr>"
      using False \<open>usable canvas\<close> by (simp_all add: cv tick_rendered a d ob)
    have s0: "statsTick st0 = statsTick st" using advance_refs[of gs config "frameRadius cv" st]
      by (simp add: a)
    from observe_cases[OF ob] inv s0 show ?thesis
      by (cases "statsTick st = 19") (auto simp: e isRendered_def emits_def)
  qed
qed

lemma run_emits:
  "statsTick st < 20 \<Longrightarrow> i < length (filter isRendered (snd (run True config fs st))) \<Longrightarrow>
   emits (filter isRendered (snd (run True config fs st)) ! i) \<longleftrightarrow> (statsTick st + i + 1) mod 20 = 0"
proof (induction fs arbitrary: st i)
  case Nil
  then show ?case by simp
next
  case (Cons f fs)
  obtain canvas gs where f: "f = (canvas, gs)" by (cases f)
  obtain st1 sounds out where t: "tick canvas True gs config st = (st1, sounds, out)"
    by (metis prod_cases3)
  note ts = tick_stats[OF t Cons.prems(1)]
  have r: "snd (run True config (f # fs) st) = out # snd (run True config fs st1)"
    by (simp add: f t split: prod.splits)
  show ?case
  proof (cases "isRendered out")
    case False
    with ts have "statsTick st1 = statsTick st" by simp
    then show ?thesis using Cons.IH[of st1 i] Cons.prems False by (simp add: r)
  next
    case True
    with ts have s1: "statsTick st1 = (statsTick st + 1) mod 20"
      and em: "emits out \<longleftrightarrow> statsTick st = 19" by simp_all
    have inv1: "statsTick st1 < 20" by (simp add: s1)
    show ?thesis
    proof (cases i)
      case 0
      have "statsTick st = 19 \<longleftrightarrow> (statsTick st + 1) mod 20 = 0"
        using Cons.prems(1) by (cases "statsTick st = 19") simp_all
      then show ?thesis using True em by (simp add: r 0)
    next
      case (Suc k)
      from Cons.prems(2) True have k: "k < length (filter isRendered (snd (run True config fs st1)))"
        by (simp add: r Suc)
      have "((statsTick st + 1) mod 20 + (k + 1)) mod 20 = ((statsTick st + 1) + (k + 1)) mod 20"
        by (rule mod_add_left_eq)
      then have "((statsTick st + 1) mod 20 + k + 1) mod 20 = (statsTick st + Suc k + 1) mod 20"
        by (simp add: add.assoc)
      then show ?thesis using Cons.IH[OF inv1 k] True by (simp add: r Suc s1)
    qed
  qed
qed

text \<open>
  Claim C8. With an observer registered and the tick counter below 20 (as it is
  initially and after every frame), an observation emits a snapshot exactly when it is
  the 20th since the last emission. The snapshot holds
  \<open>runningTotal / (20 * particleCount)\<close>, the running total including the frame
  observed, and the shared collision counter; after the emission the kinetic-energy
  accumulator, the collision counter and the tick counter are zero. Before the 20th
  observation nothing is emitted and the accumulators keep growing. Hence, in any run of
  frames, the \<open>i\<close>-th drawn frame (counted from 0) emits exactly when
  \<open>statsTick + i + 1\<close> is a multiple of 20: one snapshot per 20 observations.
\<close>

theorem telemetry_cycle:
  assumes inv: "statsTick st < 20"
      and res: "observe True frameKe st = (st', snap)"
  shows "(snap \<noteq> None \<longleftrightarrow> statsTick st = 19)
       \<and> (statsTick st = 19 \<longrightarrow>
            snap = Some (js_div (totalKe st + frameKe) (20 * real (length (balls st))),
                         collisionCount st)
          \<and> (balls st \<noteq> [] \<longrightarrow>
               snap = Some (Finite ((totalKe st + frameKe) / (20 * real (length (balls st)))),
                            collisionCount st))
          \<and> totalKe st' = 0 \<and> collisionCount st' = 0 \<and> statsTick st' = 0)
       \<and> (statsTick st < 19 \<longrightarrow>
            statsTick st' = statsTick st + 1 \<and> totalKe st' = totalKe st + frameKe
          \<and> collisionCount st' = collisionCount st)
       \<and> (\<forall>fs i. i < length (filter isRendered (snd (run True config fs st))) \<longrightarrow>
            (emits (filter isRendered (snd (run True config fs st)) ! i)
               \<longleftrightarrow> (statsTick st + i + 1) mod 20 = 0))"
proof -
  note oc = observe_cases[OF res]
  have a: "snap \<noteq> None \<longleftrightarrow> statsTick st = 19" using oc inv by auto
  have b: "statsTick st = 19 \<longrightarrow>
            snap = Some (js_div (totalKe st + frameKe) (20 * real (length (balls st))),
                         collisionCount st)
          \<and> (balls st \<noteq> [] \<longrightarrow>
               snap = Some (Finite ((totalKe st + frameKe) / (20 * real (length (balls st)))),
                            collisionCount st))
          \<and> totalKe st' = 0 \<and> collisionCount st' = 0 \<and> statsTick st' = 0"
    using oc by (auto simp: js_div_def)
  have c: "statsTick st < 19 \<longrightarrow>
            statsTick st' = statsTick st + 1 \<and> totalKe st' = totalKe st + frameKe
          \<and> collisionCount st' = collisionCount st"
    using oc by auto
  have d: "\<forall>fs i. i < length (filter isRendered (snd (run True config fs st))) \<longrightarrow>
            (emits (filter isRendered (snd (run True config fs st)) ! i)
               \<longleftrightarrow> (statsTick st + i + 1) mod 20 = 0)"
    using run_emits[OF inv] by simp
  show ?thesis by (rule conjI[OF a conjI[OF b conjI[OF c d]]])
qed

text \<open>
  The 20th observation of a window with one particle: the snapshot is
  \<open>(38 + 2) / (20 * 1) = 2\<close> with 3 collisions, and the accumulators are reset.
\<close>

theorem telemetry_cycle_witness:
  "statsTick windowEnd < 20
   \<and> snd (observe True 2 windowEnd) = Some (Finite 2, 3)
   \<and> totalKe (fst (observe True 2 windowEnd)) = 0
   \<and> collisionCount (fst (observe True 2 windowEnd)) = 0
   \<and> statsTick (fst (observe True 2 windowEnd)) = 0"
proof -
  let ?r = "observe True 2 windowEnd"
  have inv: "statsTick windowEnd < 20" by (simp add: windowEnd_def)
  have res: "?r = (fst ?r, snd ?r)" by simp
  have s19: "statsTick windowEnd = 19" by (simp add: windowEnd_def)
  have ne: "balls windowEnd \<noteq> []" by (simp add: windowEnd_def)
  from telemetry_cycle[OF inv res, of emptyTriangle] s19 ne
  have "snd ?r = Some (Finite ((totalKe windowEnd + 2) / (20 * real (length (balls windowEnd)))),
                       collisionCount windowEnd)"
    and z: "totalKe (fst ?r) = 0" "collisionCount (fst ?r) = 0" "statsTick (fst ?r) = 0"
    by blast+
  then have "snd ?r = Some (Finite 2, 3)" by (simp add: windowEnd_def)
  with inv z show ?thesis by blast
qed

text \<open>
  Claim C1, as amended. When a snapshot is due in a frame without particles, the
  division \<open>totalKe / (20 * 0)\<close> is carried out as it stands: there is no special
  case. The value handed to the observer is never a finite number, in particular not
  0: it is \<open>NaN\<close> when the running total is 0 and \<open>+Infinity\<close> when it is positive.
\<close>

theorem zero_particles_snapshot:
  assumes u: "usable canvas"
      and vc: "vertexCount config \<noteq> 0"
      and e: "balls st = []"
      and due: "statsTick st = 19"
      and t: "tick canvas True gs config st = (st', sounds, out)"
  shows "out = Rendered \<lparr>circles = [],
                 emitted = Some (js_div (totalKe st) 0, collisionCount st)\<rparr>
       \<and> (\<forall>v. js_div (totalKe st) 0 \<noteq> Finite v)
       \<and> (totalKe st = 0 \<longrightarrow> js_div (totalKe st) 0 = NaN)
       \<and> (totalKe st > 0 \<longrightarrow> js_div (totalKe st) 0 = PosInfinity)"
  using tick_empty[OF u vc e t] due js_div_zero[of "totalKe st"] by simp

theorem zero_particles_snapshot_witness:
  "usable (Some canvas800) \<and> vertexCount emptyTriangle \<noteq> 0 \<and> balls emptyWindowEnd = []
   \<and> statsTick emptyWindowEnd = 19
   \<and> snd (snd (tick (Some canvas800) True defaultSettings emptyTriangle emptyWindowEnd))
        = Rendered \<lparr>circles = [], emitted = Some (NaN, 0)\<rparr>"
proof -
  let ?r = "tick (Some canvas800) True defaultSettings emptyTriangle emptyWindowEnd"
  have u: "usable (Some canvas800)" by (simp add: usable_def canvas800_def)
  have vc: "vertexCount emptyTriangle \<noteq> 0" by (simp add: emptyTriangle_def)
  have e: "balls emptyWindowEnd = []" by (simp add: emptyWindowEnd_def initialEngine_def)
  have due: "statsTick emptyWindowEnd = 19" by (simp add: emptyWindowEnd_def)
  have t: "?r = (fst ?r, fst (snd ?r), snd (snd ?r))" by simp
  have z: "totalKe emptyWindowEnd = 0" "collisionCount emptyWindowEnd = 0"
    by (simp_all add: emptyWindowEnd_def initialEngine_def)
  from zero_particles_snapshot[OF u vc e due t]
  have "snd (snd ?r) = Rendered \<lparr>circles = [],
          emitted = Some (js_div (totalKe emptyWindowEnd) 0, collisionCount emptyWindowEnd)\<rparr>"
    and "totalKe emptyWindowEnd = 0 \<longrightarrow> js_div (totalKe emptyWindowEnd) 0 = NaN"
    by blast+
  then have "snd (snd ?r) = Rendered \<lparr>circles = [], emitted = Some (NaN, 0)\<rparr>"
    by (simp add: z)
  with u vc e due show ?thesis by blast
qed

text \<open>
  Claim C1 as stated fails from the very first window: a simulation configured with
  zero particles, run for 20 frames from its initialisation, hands \<open>NaN\<close> to the
  observer in the 20th frame, and \<open>NaN\<close> is not the number 0.
\<close>

lemma zero_particles_run:
  "last (snd (run True emptyTriangle (replicate 20 (Some canvas800, defaultSettings))
                (initialize emptyTriangle noRandom initialEngine)))
     = Rendered \<lparr>circles = [], emitted = Some (NaN, 0)\<rparr>"
proof -
  let ?f = "(Some canvas800, defaultSettings)"
  let ?s0 = "initialize emptyTriangle noRandom initialEngine"
  let ?s19 = "fst (run True emptyTriangle (replicate 19 ?f) ?s0)"
  have vc: "vertexCount emptyTriangle \<noteq> 0" by (simp add: emptyTriangle_def)
  have u: "usable (Some canvas800)" by (simp add: usable_def canvas800_def)
  have b0: "balls ?s0 = []" by (simp add: initialize_def emptyTriangle_def)
  have i0: "totalKe ?s0 = 0" "collisionCount ?s0 = 0" "statsTick ?s0 = 0"
    by (simp_all add: initialize_def initialEngine_def)
  have "balls ?s19 = [] \<and> totalKe ?s19 = totalKe ?s0 \<and> collisionCount ?s19 = collisionCount ?s0
        \<and> statsTick ?s19 = statsTick ?s0 + length (replicate 19 ?f)"
    by (rule run_empty[OF vc _ b0]) (simp_all add: u i0)
  then have s19: "balls ?s19 = []" "totalKe ?s19 = 0" "collisionCount ?s19 = 0" "statsTick ?s19 = 19"
    by (simp_all add: i0)
  obtain st' sounds out where t: "tick (Some canvas800) True defaultSettings emptyTriangle ?s19
      = (st', sounds, out)" by (metis prod_cases3)
  from tick_empty[OF u vc s19(1) t] s19
  have out: "out = Rendered \<lparr>circles = [], emitted = Some (NaN, 0)\<rparr>" by (simp add: js_div_def)
  have "replicate (Suc 19) ?f = replicate 19 ?f @ [?f]"
    by (simp only: replicate_Suc replicate_append_same)
  then have "replicate 20 ?f = replicate 19 ?f @ [?f]" by simp
  then have "snd (run True emptyTriangle (replicate 20 ?f) ?s0)
      = snd (run True emptyTriangle (replicate 19 ?f) ?s0) @ [out]"
    by (simp only: run_append) (simp add: t)
  then show ?thesis by (simp add: out)
qed

theorem zero_particles_counterexample:
  "last (snd (run True emptyTriangle (replicate 20 (Some canvas800, defaultSettings))
                (initialize emptyTriangle noRandom initialEngine)))
     = Rendered \<lparr>circles = [], emitted = Some (NaN, 0)\<rparr>
   \<and> NaN \<noteq> Finite 0"
  using zero_particles_run by simp

section \<open>The particles after a frame\<close>

lemma observe_balls: "balls (fst (observe observer ke st)) = balls st"
  by (simp add: observe_def Let_def)

lemma observe_statsTick:
  "statsTick (fst (observe observer ke st)) = (if statsTick st + 1 \<ge> 20 then 0 else statsTick st + 1)"
  by (simp add: observe_def Let_def)

lemma observe_totalKe:
  "totalKe (fst (observe observer ke st)) = (if statsTick st + 1 \<ge> 20 then 0 else totalKe st + ke)"
  by (simp add: observe_def Let_def)

lemma tick_drawn:
  assumes u: "usable (Some cv)" and vc: "vertexCount config \<noteq> 0"
      and t: "tick (Some cv) observer gs config st = (st', sounds, out)"
  shows "balls st' = map (\<lambda>b. b\<lparr>trail := updateTrail gs (screenPos (frameCenter cv) b) (trail b)\<rparr>)
                      (balls (fst (advance gs config (frameRadius cv) st)))
       \<and> (\<exists>f. out = Rendered f
              \<and> circles f = map (\<lambda>b. (x (frameCenter cv) + x (pos b), y (frameCenter cv) + y (pos b), radius b))
                               (balls (fst (advance gs config (frameRadius cv) st))))
       \<and> statsTick st' = (if statsTick st + 1 \<ge> 20 then 0 else statsTick st + 1)
       \<and> totalKe st' = (if statsTick st + 1 \<ge> 20 then 0
                         else totalKe st + (\<Sum>b\<leftarrow>balls (fst (advance gs config (frameRadius cv) st)).
                                              0.5 * mag (vel b) * mag (vel b)))"
proof -
  obtain st0 snd0 where a: "advance gs config (frameRadius cv) st = (st0, snd0)" by (metis surj_pair)
  obtain bs ke cs where d: "drawParticles gs (frameCenter cv) (balls st0) 0 = (bs, ke, cs)"
    by (metis prod_cases3)
  obtain st2 snap where ob: "observe observer ke (st0\<lparr>balls := bs\<rparr>) = (st2, snap)" by (metis surj_pair)
  from t u vc have e: "st' = st2" "out = Rendered \<lparr>circles = cs, emitted = snap\<rparr>"
    by (simp_all add: tick_rendered a d ob)
  have bs: "bs = map (\<lambda>b. b\<lparr>trail := updateTrail gs (screenPos (frameCenter cv) b) (trail b)\<rparr>) (balls st0)"
    using drawParticles_balls[of gs "frameCenter cv" "balls st0" 0] by (simp add: d)
  have cs: "cs = map (\<lambda>b. (x (frameCenter cv) + x (pos b), y (frameCenter cv) + y (pos b), radius b)) (balls st0)"
    using drawParticles_circles[of gs "frameCenter cv" "balls st0" 0] by (simp add: d)
  have b2: "balls st2 = bs" using observe_balls[of observer ke "st0\<lparr>balls := bs\<rparr>"] by (simp add: ob)
  have s0: "statsTick st0 = statsTick st" using advance_refs[of gs config "frameRadius cv" st]
    by (simp add: a)
  have s2: "statsTick st2 = (if statsTick st + 1 \<ge> 20 then 0 else statsTick st + 1)"
    using observe_statsTick[of observer ke "st0\<lparr>balls := bs\<rparr>"] by (simp add: ob s0)
  have k0: "totalKe st0 = totalKe st" using advance_refs[of gs config "frameRadius cv" st]
    by (simp add: a)
  have ke: "ke = (\<Sum>b\<leftarrow>balls st0. 0.5 * mag (vel b) * mag (vel b))"
    using drawParticles_ke[of gs "frameCenter cv" "balls st0" 0] by (simp add: d)
  have k2: "totalKe st2 = (if statsTick st + 1 \<ge> 20 then 0 else totalKe st + ke)"
    using observe_totalKe[of observer ke "st0\<lparr>balls := bs\<rparr>"] by (simp add: ob s0 k0)
  show ?thesis by (simp add: e b2 bs cs s2 k2 ke a)
qed

lemma tick_not_drawn:
  assumes t: "tick canvas observer gs config st = (st', sounds, out)"
      and n: "\<not> (usable canvas \<and> vertexCount config \<noteq> 0)"
  shows "\<not> isRendered out
       \<and> (\<not> usable canvas \<longrightarrow> st' = st)
       \<and> (\<forall>cv. canvas = Some cv \<and> usable canvas \<longrightarrow> st' = fst (advance gs config (frameRadius cv) st))"
proof (cases "usable canvas")
  case False
  with t show ?thesis by (simp add: tick_unusable isRendered_def)
next
  case True
  then obtain cv where cv: "canvas = Some cv" by (auto simp: usable_def split: option.splits)
  from True n have "vertexCount config = 0" by simp
  with t True show ?thesis by (auto simp: cv tick_threw isRendered_def)
qed

text \<open>Every frame keeps the number of particles; a drawn frame is one with a usable canvas and a vertex.\<close>

lemma tick_rendered_iff:
  assumes t: "tick canvas observer gs config st = (st', sounds, out)"
  shows "isRendered out \<longleftrightarrow> usable canvas \<and> vertexCount config \<noteq> 0"
proof (cases "usable canvas \<and> vertexCount config \<noteq> 0")
  case False
  with tick_not_drawn[OF t] show ?thesis by blast
next
  case True
  then obtain cv where cv: "canvas = Some cv" by (auto simp: usable_def split: option.splits)
  from True tick_drawn[of cv config observer gs st st' sounds out] t show ?thesis
    by (auto simp: cv isRendered_def)
qed

text \<open>A field of the particles that neither a position nor a velocity nor a trail update touches.\<close>

lemma tick_keeps:
  assumes p: "\<And>b p. f (b\<lparr>pos := p\<rparr>) = f b" and v: "\<And>b v. f (b\<lparr>vel := v\<rparr>) = f b"
      and tr: "\<And>b t. f (b\<lparr>trail := t\<rparr>) = f b"
  shows "map f (balls (fst (tick canvas observer gs config st))) = map f (balls st)"
proof -
  obtain st' sounds out where t: "tick canvas observer gs config st = (st', sounds, out)"
    by (metis prod_cases3)
  show ?thesis
  proof (cases "usable canvas \<and> vertexCount config \<noteq> 0")
    case True
    then obtain cv where cv: "canvas = Some cv" by (auto simp: usable_def split: option.splits)
    from True tick_drawn[of cv config observer gs st st' sounds out] t
    have "balls st' = map (\<lambda>b. b\<lparr>trail := updateTrail gs (screenPos (frameCenter cv) b) (trail b)\<rparr>)
                      (balls (fst (advance gs config (frameRadius cv) st)))" by (simp add: cv)
    then have "map f (balls st') = map f (balls (fst (advance gs config (frameRadius cv) st)))"
      by (simp add: tr comp_def)
    then show ?thesis by (simp add: t advance_keeps[where f = f, OF p v])
  next
    case False
    note nd = tick_not_drawn[OF t False]
    show ?thesis
    proof (cases "usable canvas")
      case False
      with nd show ?thesis by (simp add: t)
    next
      case True
      then obtain cv where cv: "canvas = Some cv" by (auto simp: usable_def split: option.splits)
      with nd True have "st' = fst (advance gs config (frameRadius cv) st)" by blast
      then show ?thesis by (simp add: t advance_keeps[where f = f, OF p v])
    qed
  qed
qed

lemma tick_length: "length (balls (fst (tick canvas observer gs config st))) = length (balls st)"
  using tick_keeps[where f = "\<lambda>b. ()", of canvas observer gs config st] by (metis length_map)

section \<open>Paused frames\<close>

lemma tick_paused_pos_vel:
  assumes z: "timeScale gs = 0"
  shows "map pos (balls (fst (tick canvas observer gs config st))) = map pos (balls st)
       \<and> map vel (balls (fst (tick canvas observer gs config st))) = map vel (balls st)"
proof -
  obtain st' sounds out where t: "tick canvas observer gs config st = (st', sounds, out)"
    by (metis prod_cases3)
  have adv: "advance gs config r st = (st, [])" for r using z by (simp add: advance_paused)
  show ?thesis
  proof (cases "usable canvas \<and> vertexCount config \<noteq> 0")
    case True
    then obtain cv where cv: "canvas = Some cv" by (auto simp: usable_def split: option.splits)
    from True tick_drawn[of cv config observer gs st st' sounds out] t
    have "balls st' = map (\<lambda>b. b\<lparr>trail := updateTrail gs (screenPos (frameCenter cv) b) (trail b)\<rparr>)
                      (balls st)" by (simp add: cv adv)
    then show ?thesis by (simp add: t comp_def)
  next
    case False
    note nd = tick_not_drawn[OF t False]
    show ?thesis
    proof (cases "usable canvas")
      case False
      with nd show ?thesis by (simp add: t)
    next
      case True
      then obtain cv where cv: "canvas = Some cv" by (auto simp: usable_def split: option.splits)
      with nd True have "st' = st" by (simp add: adv)
      then show ?thesis by (simp add: t)
    qed
  qed
qed

lemma run_paused_pos_vel:
  "\<forall>f \<in> set fs. timeScale (snd f) = 0 \<Longrightarrow>
   map pos (balls (fst (run observer config fs st))) = map pos (balls st)
   \<and> map vel (balls (fst (run observer config fs st))) = map vel (balls st)"
proof (induction fs arbitrary: st)
  case Nil
  show ?case by simp
next
  case (Cons f fs)
  obtain canvas gs where f: "f = (canvas, gs)" by (cases f)
  from Cons.prems have z: "timeScale gs = 0" by (simp add: f)
  from Cons.prems have rest: "\<forall>f \<in> set fs. timeScale (snd f) = 0" by simp
  have "fst (run observer config (f # fs) st)
          = fst (run observer config fs (fst (tick canvas observer gs config st)))"
    by (simp add: f split_beta)
  then show ?case
    using Cons.IH[OF rest, of "fst (tick canvas observer gs config st)"]
      tick_paused_pos_vel[OF z, of canvas observer config st] by simp
qed

lemma tick_paused_drawn:
  assumes z: "timeScale gs = 0" and u: "usable (Some cv)" and vc: "vertexCount config \<noteq> 0"
  shows "(\<exists>fr. snd (snd (tick (Some cv) observer gs config s)) = Rendered fr
             \<and> circles fr = map (\<lambda>b. (x (frameCenter cv) + x (pos b), y (frameCenter cv) + y (pos b), radius b)) (balls s))
       \<and> statsTick (fst (tick (Some cv) observer gs config s)) = (if statsTick s + 1 \<ge> 20 then 0 else statsTick s + 1)
       \<and> totalKe (fst (tick (Some cv) observer gs config s))
           = (if statsTick s + 1 \<ge> 20 then 0
              else totalKe s + (\<Sum>b\<leftarrow>balls s. 0.5 * mag (vel b) * mag (vel b)))"
proof -
  let ?r = "tick (Some cv) observer gs config s"
  have t: "?r = (fst ?r, fst (snd ?r), snd (snd ?r))" by simp
  have adv: "advance gs config r s = (s, [])" for r using z by (simp add: advance_paused)
  from tick_drawn[OF u vc t] show ?thesis by (simp add: adv)
qed

text \<open>
  Claim C6. While \<open>timeScale = 0\<close> a frame performs zero physics sub-steps, and any
  number of frames leaves the position and the velocity of every particle exactly as
  they were. A frame with a usable canvas and a container with at least one vertex is
  still drawn, one circle per particle at its unchanged position, and still observed
  by the telemetry: the tick counter advances and the kinetic energy of the frame is
  added to the running total (or both are reset, at the 20th observation).
\<close>

theorem paused_frames_freeze:
  assumes z: "\<forall>f \<in> set fs. timeScale (snd f) = 0"
  shows "map pos (balls (fst (run observer config fs st))) = map pos (balls st)
       \<and> map vel (balls (fst (run observer config fs st))) = map vel (balls st)
       \<and> (\<forall>f \<in> set fs. \<forall>r s. advance (snd f) config r s = (s, []))
       \<and> (\<forall>f \<in> set fs. \<forall>cv s. fst f = Some cv \<and> usable (fst f) \<and> vertexCount config \<noteq> 0 \<longrightarrow>
            (\<exists>fr. snd (snd (tick (fst f) observer (snd f) config s)) = Rendered fr
                 \<and> circles fr = map (\<lambda>b. (x (frameCenter cv) + x (pos b),
                                           y (frameCenter cv) + y (pos b), radius b)) (balls s))
            \<and> statsTick (fst (tick (fst f) observer (snd f) config s))
                = (if statsTick s + 1 \<ge> 20 then 0 else statsTick s + 1)
            \<and> totalKe (fst (tick (fst f) observer (snd f) config s))
                = (if statsTick s + 1 \<ge> 20 then 0
                   else totalKe s + (\<Sum>b\<leftarrow>balls s. 0.5 * mag (vel b) * mag (vel b))))"
proof -
  note a = run_paused_pos_vel[OF z, of observer config st]
  have b: "\<forall>f \<in> set fs. \<forall>r s. advance (snd f) config r s = (s, [])"
    using z by (simp add: advance_paused)
  have c: "\<forall>f \<in> set fs. \<forall>cv s. fst f = Some cv \<and> usable (fst f) \<and> vertexCount config \<noteq> 0 \<longrightarrow>
            (\<exists>fr. snd (snd (tick (fst f) observer (snd f) config s)) = Rendered fr
                 \<and> circles fr = map (\<lambda>b. (x (frameCenter cv) + x (pos b),
                                           y (frameCenter cv) + y (pos b), radius b)) (balls s))
            \<and> statsTick (fst (tick (fst f) observer (snd f) config s))
                = (if statsTick s + 1 \<ge> 20 then 0 else statsTick s + 1)
            \<and> totalKe (fst (tick (fst f) observer (snd f) config s))
                = (if statsTick s + 1 \<ge> 20 then 0
                   else totalKe s + (\<Sum>b\<leftarrow>balls s. 0.5 * mag (vel b) * mag (vel b)))"
  proof (intro ballI allI impI)
    fix f cv s
    assume f: "f \<in> set fs" and h: "fst f = Some cv \<and> usable (fst f) \<and> vertexCount config \<noteq> 0"
    from z f have z0: "timeScale (snd f) = 0" by simp
    from h have c: "fst f = Some cv" and vc: "vertexCount config \<noteq> 0" by simp_all
    from h have u: "usable (Some cv)" by auto
    from tick_paused_drawn[OF z0 u vc, of observer s]
    show "(\<exists>fr. snd (snd (tick (fst f) observer (snd f) config s)) = Rendered fr
                 \<and> circles fr = map (\<lambda>b. (x (frameCenter cv) + x (pos b),
                                           y (frameCenter cv) + y (pos b), radius b)) (balls s))
            \<and> statsTick (fst (tick (fst f) observer (snd f) config s))
                = (if statsTick s + 1 \<ge> 20 then 0 else statsTick s + 1)
            \<and> totalKe (fst (tick (fst f) observer (snd f) config s))
                = (if statsTick s + 1 \<ge> 20 then 0
                   else totalKe s + (\<Sum>b\<leftarrow>balls s. 0.5 * mag (vel b) * mag (vel b)))"
      by (simp only: c)
  qed
  from a b c show ?thesis by blast
qed

text \<open>
  Two paused frames over the state with one particle at the origin moving with
  velocity \<open>(2, 0)\<close>; the first of them is drawn and is the 20th observation.
\<close>

theorem paused_frames_freeze_witness:
  "timeScale pausedSettings = 0
   \<and> map pos (balls (fst (run True oneBallTriangle
        [(Some canvas800, pausedSettings), (Some canvas800, pausedSettings)] windowEnd)))
       = [\<lparr>x = 0, y = 0\<rparr>]
   \<and> map vel (balls (fst (run True oneBallTriangle
        [(Some canvas800, pausedSettings), (Some canvas800, pausedSettings)] windowEnd)))
       = [\<lparr>x = 2, y = 0\<rparr>]
   \<and> usable (Some canvas800) \<and> vertexCount oneBallTriangle \<noteq> 0
   \<and> isRendered (snd (snd (tick (Some canvas800) True pausedSettings oneBallTriangle windowEnd)))
   \<and> statsTick (fst (tick (Some canvas800) True pausedSettings oneBallTriangle windowEnd)) = 0"
proof -
  let ?f = "(Some canvas800, pausedSettings)"
  have z: "timeScale pausedSettings = 0" by (simp add: pausedSettings_def)
  then have h: "\<forall>f \<in> set [?f, ?f]. timeScale (snd f) = 0" by simp
  have p: "map pos (balls windowEnd) = [\<lparr>x = 0, y = 0\<rparr>]"
    and v: "map vel (balls windowEnd) = [\<lparr>x = 2, y = 0\<rparr>]"
    by (simp_all add: windowEnd_def mkBall_def)
  have u: "usable (Some canvas800)" by (simp add: usable_def canvas800_def)
  have vc: "vertexCount oneBallTriangle \<noteq> 0" by (simp add: oneBallTriangle_def emptyTriangle_def)
  note th = paused_frames_freeze[OF h, of True oneBallTriangle windowEnd]
  from th p have a: "map pos (balls (fst (run True oneBallTriangle [?f, ?f] windowEnd)))
       = [\<lparr>x = 0, y = 0\<rparr>]" by (simp only:)
  from th v have b: "map vel (balls (fst (run True oneBallTriangle [?f, ?f] windowEnd)))
       = [\<lparr>x = 2, y = 0\<rparr>]" by (simp only:)
  from th have "\<forall>f \<in> set [?f, ?f]. \<forall>cv s. fst f = Some cv \<and> usable (fst f) \<and> vertexCount oneBallTriangle \<noteq> 0 \<longrightarrow>
            (\<exists>fr. snd (snd (tick (fst f) True (snd f) oneBallTriangle s)) = Rendered fr
                 \<and> circles fr = map (\<lambda>b. (x (frameCenter cv) + x (pos b),
                                           y (frameCenter cv) + y (pos b), radius b)) (balls s))
            \<and> statsTick (fst (tick (fst f) True (snd f) oneBallTriangle s))
                = (if statsTick s + 1 \<ge> 20 then 0 else statsTick s + 1)
            \<and> totalKe (fst (tick (fst f) True (snd f) oneBallTriangle s))
                = (if statsTick s + 1 \<ge> 20 then 0
                   else totalKe s + (\<Sum>b\<leftarrow>balls s. 0.5 * mag (vel b) * mag (vel b)))"
    by (elim conjE)
  then have "(\<exists>fr. snd (snd (tick (Some canvas800) True pausedSettings oneBallTriangle windowEnd)) = Rendered fr
                 \<and> circles fr = map (\<lambda>b. (x (frameCenter canvas800) + x (pos b),
                                           y (frameCenter canvas800) + y (pos b), radius b)) (balls windowEnd))
            \<and> statsTick (fst (tick (Some canvas800) True pausedSettings oneBallTriangle windowEnd))
                = (if statsTick windowEnd + 1 \<ge> 20 then 0 else statsTick windowEnd + 1)
            \<and> totalKe (fst (tick (Some canvas800) True pausedSettings oneBallTriangle windowEnd))
                = (if statsTick windowEnd + 1 \<ge> 20 then 0
                   else totalKe windowEnd + (\<Sum>b\<leftarrow>balls windowEnd. 0.5 * mag (vel b) * mag (vel b)))"
    using u vc by simp
  then have c: "isRendered (snd (snd (tick (Some canvas800) True pausedSettings oneBallTriangle windowEnd)))"
    and d: "statsTick (fst (tick (Some canvas800) True pausedSettings oneBallTriangle windowEnd)) = 0"
    by (auto simp: isRendered_def windowEnd_def)
  from z a b u vc c d show ?thesis by blast
qed

section \<open>Trails\<close>

lemma updateTrail_length: "length t \<le> TRAIL_LENGTH \<Longrightarrow> length (updateTrail gs p t) \<le> TRAIL_LENGTH"
  by (simp add: updateTrail_def Let_def)

lemma updateTrail_cases:
  "updateTrail gs p t =
     (if showTrails gs \<and> timeScale gs > 0 then
        (if length t < TRAIL_LENGTH then t @ [p] else tl t @ [p])
      else if \<not> showTrails gs then [] else t)"
  by (cases t) (auto simp: updateTrail_def Let_def TRAIL_LENGTH_def)

lemma map_eq_nth: "map f xs = map f ys \<Longrightarrow> i < length xs \<Longrightarrow> f (xs ! i) = f (ys ! i)"
  by (metis length_map nth_map)

lemma tick_trail_inv:
  assumes inv: "\<forall>b \<in> set (balls st). length (trail b) \<le> TRAIL_LENGTH"
  shows "\<forall>b \<in> set (balls (fst (tick canvas observer gs config st))). length (trail b) \<le> TRAIL_LENGTH"
proof -
  obtain st' sounds out where t: "tick canvas observer gs config st = (st', sounds, out)"
    by (metis prod_cases3)
  have adv: "\<forall>b \<in> set (balls (fst (advance gs config r st))). length (trail b) \<le> TRAIL_LENGTH" for r
  proof -
    have "map trail (balls (fst (advance gs config r st))) = map trail (balls st)"
      by (rule advance_keeps) simp_all
    then have "trail ` set (balls (fst (advance gs config r st))) = trail ` set (balls st)"
      by (metis set_map)
    with inv show ?thesis by (metis (no_types, lifting) imageE imageI)
  qed
  show ?thesis
  proof (cases "usable canvas \<and> vertexCount config \<noteq> 0")
    case True
    then obtain cv where cv: "canvas = Some cv" by (auto simp: usable_def split: option.splits)
    from True tick_drawn[of cv config observer gs st st' sounds out] t
    have "balls st' = map (\<lambda>b. b\<lparr>trail := updateTrail gs (screenPos (frameCenter cv) b) (trail b)\<rparr>)
                      (balls (fst (advance gs config (frameRadius cv) st)))" by (simp add: cv)
    then show ?thesis using adv[of "frameRadius cv"] by (auto simp: t updateTrail_length)
  next
    case False
    note nd = tick_not_drawn[OF t False]
    show ?thesis
    proof (cases "usable canvas")
      case False
      with nd inv show ?thesis by (simp add: t)
    next
      case True
      then obtain cv where cv: "canvas = Some cv" by (auto simp: usable_def split: option.splits)
      with nd True have "st' = fst (advance gs config (frameRadius cv) st)" by blast
      then show ?thesis using adv[of "frameRadius cv"] by (simp add: t)
    qed
  qed
qed

lemma run_trail_inv:
  "\<forall>b \<in> set (balls st). length (trail b) \<le> TRAIL_LENGTH \<Longrightarrow>
   \<forall>b \<in> set (balls (fst (run observer config fs st))). length (trail b) \<le> TRAIL_LENGTH"
proof (induction fs arbitrary: st)
  case Nil
  then show ?case by simp
next
  case (Cons f fs)
  obtain canvas gs where f: "f = (canvas, gs)" by (cases f)
  have "fst (run observer config (f # fs) st)
          = fst (run observer config fs (fst (tick canvas observer gs config st)))"
    by (simp add: f split_beta)
  then show ?case
    using Cons.IH[OF tick_trail_inv[OF Cons.prems, of canvas observer gs config]] by simp
qed

lemma initialize_trails: "\<forall>b \<in> set (balls (initialize config random st)). trail b = []"
  by (simp add: initialize_def newBall_def Let_def)

lemma tick_trail_nth:
  assumes t: "tick (Some cv) observer gs config st = (st', sounds, out)"
      and r: "isRendered out" and i: "i < length (balls st)"
  shows "trail (balls st' ! i)
           = updateTrail gs (screenPos (frameCenter cv) (balls st' ! i)) (trail (balls st ! i))"
proof -
  let ?st0 = "fst (advance gs config (frameRadius cv) st)"
  let ?g = "\<lambda>b. b\<lparr>trail := updateTrail gs (screenPos (frameCenter cv) b) (trail b)\<rparr>"
  from tick_rendered_iff[OF t] r have u: "usable (Some cv)" and vc: "vertexCount config \<noteq> 0"
    by simp_all
  from tick_drawn[OF u vc t] have b: "balls st' = map ?g (balls ?st0)" by simp
  have len: "length (balls ?st0) = length (balls st)" by (rule advance_length)
  have tr: "map trail (balls ?st0) = map trail (balls st)" by (rule advance_keeps) simp_all
  from i len have i0: "i < length (balls ?st0)" by simp
  have "balls st' ! i = ?g (balls ?st0 ! i)" using i0 by (simp add: b)
  moreover have "trail (balls ?st0 ! i) = trail (balls st ! i)" by (rule map_eq_nth[OF tr i0])
  ultimately show ?thesis by (simp add: screenPos_def)
qed

text \<open>
  Claim C7, as amended. A frame preserves the bound of 12 entries on every trail, and
  every run of frames from an initialisation keeps all trails within 12 entries. In a
  drawn frame each trail is updated once, whatever the number of sub-steps: with
  trails enabled and \<open>timeScale > 0\<close> the screen position of the particle is appended
  at the end and, when the trail was full, its first (oldest) entry is dropped; with
  trails disabled the trail becomes empty; with trails enabled and \<open>timeScale \<le> 0\<close>
  the trail is left as it is. A frame that is not drawn leaves the trails alone.
\<close>

theorem trail_bookkeeping:
  assumes t: "tick canvas observer gs config st = (st', sounds, out)"
      and inv: "\<forall>b \<in> set (balls st). length (trail b) \<le> TRAIL_LENGTH"
  shows "(\<forall>b \<in> set (balls st'). length (trail b) \<le> TRAIL_LENGTH)
       \<and> TRAIL_LENGTH = 12
       \<and> length (balls st') = length (balls st)
       \<and> (\<forall>i cv. i < length (balls st) \<and> canvas = Some cv \<and> isRendered out \<longrightarrow>
            trail (balls st' ! i) =
              (if showTrails gs \<and> timeScale gs > 0 then
                 (if length (trail (balls st ! i)) < TRAIL_LENGTH
                  then trail (balls st ! i) @ [screenPos (frameCenter cv) (balls st' ! i)]
                  else tl (trail (balls st ! i)) @ [screenPos (frameCenter cv) (balls st' ! i)])
               else if \<not> showTrails gs then [] else trail (balls st ! i)))
       \<and> (\<not> isRendered out \<longrightarrow> map trail (balls st') = map trail (balls st))
       \<and> (\<forall>fs random st0.
            \<forall>b \<in> set (balls (fst (run observer config fs (initialize config random st0)))).
              length (trail b) \<le> TRAIL_LENGTH)"
proof -
  have a: "\<forall>b \<in> set (balls st'). length (trail b) \<le> TRAIL_LENGTH"
    using tick_trail_inv[OF inv, of canvas observer gs config] by (simp add: t)
  have b: "length (balls st') = length (balls st)"
    using tick_length[of canvas observer gs config st] by (simp add: t)
  have c: "\<forall>i cv. i < length (balls st) \<and> canvas = Some cv \<and> isRendered out \<longrightarrow>
            trail (balls st' ! i) =
              (if showTrails gs \<and> timeScale gs > 0 then
                 (if length (trail (balls st ! i)) < TRAIL_LENGTH
                  then trail (balls st ! i) @ [screenPos (frameCenter cv) (balls st' ! i)]
                  else tl (trail (balls st ! i)) @ [screenPos (frameCenter cv) (balls st' ! i)])
               else if \<not> showTrails gs then [] else trail (balls st ! i))"
  proof (intro allI impI)
    fix i cv
    assume h: "i < length (balls st) \<and> canvas = Some cv \<and> isRendered out"
    then have t': "tick (Some cv) observer gs config st = (st', sounds, out)" using t by simp
    from h have r: "isRendered out" and i: "i < length (balls st)" by simp_all
    show "trail (balls st' ! i) =
              (if showTrails gs \<and> timeScale gs > 0 then
                 (if length (trail (balls st ! i)) < TRAIL_LENGTH
                  then trail (balls st ! i) @ [screenPos (frameCenter cv) (balls st' ! i)]
                  else tl (trail (balls st ! i)) @ [screenPos (frameCenter cv) (balls st' ! i)])
               else if \<not> showTrails gs then [] else trail (balls st ! i))"
      unfolding tick_trail_nth[OF t' r i] by (rule updateTrail_cases)
  qed
  have d: "\<not> isRendered out \<longrightarrow> map trail (balls st') = map trail (balls st)"
  proof
    assume n: "\<not> isRendered out"
    with tick_rendered_iff[OF t] have nd: "\<not> (usable canvas \<and> vertexCount config \<noteq> 0)" by simp
    have "map trail (balls (fst (tick canvas observer gs config st))) = map trail (balls st)"
    proof (cases "usable canvas")
      case False
      then show ?thesis by (simp add: tick_unusable)
    next
      case True
      then obtain cv where cv: "canvas = Some cv" by (auto simp: usable_def split: option.splits)
      from tick_not_drawn[OF t nd] True cv
      have "st' = fst (advance gs config (frameRadius cv) st)" by blast
      moreover have "map trail (balls (fst (advance gs config (frameRadius cv) st))) = map trail (balls st)"
        by (rule advance_keeps) simp_all
      ultimately show ?thesis by (simp add: t)
    qed
    then show "map trail (balls st') = map trail (balls st)" by (simp add: t)
  qed
  have e: "\<forall>fs random st0.
            \<forall>b \<in> set (balls (fst (run observer config fs (initialize config random st0)))).
              length (trail b) \<le> TRAIL_LENGTH"
  proof (intro allI)
    fix fs random st0
    have "\<forall>b \<in> set (balls (initialize config random st0)). length (trail b) \<le> TRAIL_LENGTH"
      using initialize_trails[of config random st0] by simp
    then show "\<forall>b \<in> set (balls (fst (run observer config fs (initialize config random st0)))).
              length (trail b) \<le> TRAIL_LENGTH" by (rule run_trail_inv)
  qed
  have f: "TRAIL_LENGTH = 12" by (simp add: TRAIL_LENGTH_def)
  show ?thesis by (rule conjI[OF a conjI[OF f conjI[OF b conjI[OF c conjI[OF d e]]]]])
qed

text \<open>
  A running frame with trails enabled over the one-particle state: the empty trail
  receives the screen position of the particle.
\<close>

theorem trail_bookkeeping_witness:
  "list_all (\<lambda>b. length (trail b) \<le> TRAIL_LENGTH) (balls windowEnd)
   \<and> showTrails defaultSettings \<and> timeScale defaultSettings > 0
   \<and> isRendered (snd (snd (tick (Some canvas800) True defaultSettings oneBallTriangle windowEnd)))
   \<and> length (balls (fst (tick (Some canvas800) True defaultSettings oneBallTriangle windowEnd))) = 1
   \<and> trail (balls (fst (tick (Some canvas800) True defaultSettings oneBallTriangle windowEnd)) ! 0)
       = [screenPos (frameCenter canvas800)
            (balls (fst (tick (Some canvas800) True defaultSettings oneBallTriangle windowEnd)) ! 0)]"
proof -
  let ?r = "tick (Some canvas800) True defaultSettings oneBallTriangle windowEnd"
  have t: "?r = (fst ?r, fst (snd ?r), snd (snd ?r))" by simp
  have inv: "\<forall>b \<in> set (balls windowEnd). length (trail b) \<le> TRAIL_LENGTH"
    by (simp add: windowEnd_def mkBall_def)
  have u: "usable (Some canvas800)" by (simp add: usable_def canvas800_def)
  have vc: "vertexCount oneBallTriangle \<noteq> 0" by (simp add: oneBallTriangle_def emptyTriangle_def)
  have r: "isRendered (snd (snd ?r))" using tick_rendered_iff[OF t] u vc by simp
  have s: "showTrails defaultSettings" "timeScale defaultSettings > 0"
    by (simp_all add: defaultSettings_def)
  have l: "length (balls windowEnd) = 1" "trail (balls windowEnd ! 0) = []"
    by (simp_all add: windowEnd_def mkBall_def)
  note th = trail_bookkeeping[OF t inv]
  from th l have n: "length (balls (fst ?r)) = 1" by simp
  from th have "\<forall>i cv. i < length (balls windowEnd) \<and> Some canvas800 = Some cv \<and> isRendered (snd (snd ?r)) \<longrightarrow>
            trail (balls (fst ?r) ! i) =
              (if showTrails defaultSettings \<and> timeScale defaultSettings > 0 then
                 (if length (trail (balls windowEnd ! i)) < TRAIL_LENGTH
                  then trail (balls windowEnd ! i) @ [screenPos (frameCenter cv) (balls (fst ?r) ! i)]
                  else tl (trail (balls windowEnd ! i)) @ [screenPos (frameCenter cv) (balls (fst ?r) ! i)])
               else if \<not> showTrails defaultSettings then [] else trail (balls windowEnd ! i))"
    by (elim conjE)
  then have "trail (balls (fst ?r) ! 0) =
              (if showTrails defaultSettings \<and> timeScale defaultSettings > 0 then
                 (if length (trail (balls windowEnd ! 0)) < TRAIL_LENGTH
                  then trail (balls windowEnd ! 0) @ [screenPos (frameCenter canvas800) (balls (fst ?r) ! 0)]
                  else tl (trail (balls windowEnd ! 0)) @ [screenPos (frameCenter canvas800) (balls (fst ?r) ! 0)])
               else if \<not> showTrails defaultSettings then [] else trail (balls windowEnd ! 0))"
    using r l by simp
  then have e: "trail (balls (fst ?r) ! 0) = [screenPos (frameCenter canvas800) (balls (fst ?r) ! 0)]"
    using s l by (simp add: TRAIL_LENGTH_def)
  have "list_all (\<lambda>b. length (trail b) \<le> TRAIL_LENGTH) (balls windowEnd)"
    using inv by (simp add: list_all_iff)
  with s r n e show ?thesis by blast
qed

text \<open>
  Claim C7 as stated has an entry appended in every displayed frame while trails
  are enabled. The source appends only under \<open>showTrails && timeScale > 0\<close>: a paused
  frame with trails enabled is drawn and appends nothing.
\<close>

theorem trail_paused_counterexample:
  "showTrails pausedSettings
   \<and> isRendered (snd (snd (tick (Some canvas800) True pausedSettings oneBallTriangle windowEnd)))
   \<and> map trail (balls windowEnd) = [[]]
   \<and> map trail (balls (fst (tick (Some canvas800) True pausedSettings oneBallTriangle windowEnd))) = [[]]"
proof -
  let ?r = "tick (Some canvas800) True pausedSettings oneBallTriangle windowEnd"
  have t: "?r = (fst ?r, fst (snd ?r), snd (snd ?r))" by simp
  have u: "usable (Some canvas800)" by (simp add: usable_def canvas800_def)
  have vc: "vertexCount oneBallTriangle \<noteq> 0" by (simp add: oneBallTriangle_def emptyTriangle_def)
  have r: "isRendered (snd (snd ?r))" using tick_rendered_iff[OF t] u vc by simp
  have s: "showTrails pausedSettings" "timeScale pausedSettings = 0"
    by (simp_all add: pausedSettings_def defaultSettings_def)
  have adv: "advance pausedSettings oneBallTriangle q windowEnd = (windowEnd, [])" for q
    using s by (simp add: advance_paused)
  have l: "map trail (balls windowEnd) = [[]]" by (simp add: windowEnd_def mkBall_def)
  from tick_drawn[OF u vc t]
  have "balls (fst ?r) = map (\<lambda>b. b\<lparr>trail := updateTrail pausedSettings
                                 (screenPos (frameCenter canvas800) b) (trail b)\<rparr>) (balls windowEnd)"
    by (simp add: adv)
  then have "map trail (balls (fst ?r)) = map trail (balls windowEnd)"
    using s by (simp add: updateTrail_cases comp_def)
  with s r l show ?thesis by simp
qed

section \<open>Orientation of the edge normal\<close>

lemma Vector2_eq_iff: "(p :: Vector2) = q \<longleftrightarrow> x p = x q \<and> y p = y q"
  by (cases p, cases q) simp

lemma collideEdge_pos:
  "pos (fst (collideEdge e audio p1 p2 (ball, fx)))
     = (if edgeDist p1 p2 ball < radius ball
        then add (pos ball) (mult (edgeNormal p1 p2) (radius ball - edgeDist p1 p2 ball))
        else pos ball)"
  by (cases fx) (simp add: collideEdge_def Let_def)

lemma collideEdge_idle:
  "\<not> edgeDist p1 p2 ball < radius ball \<Longrightarrow> collideEdge e audio p1 p2 (ball, fx) = (ball, fx)"
  by (cases fx) (simp add: collideEdge_def Let_def)

text \<open>
  Claim C2, as amended. For every edge, the normal used by the boundary-collision
  pass (the normalised perpendicular of the edge direction, negated when
  \<open>dot(normal, p1) > 0\<close>) satisfies \<open>dot(normal, p1) \<le> 0\<close>: it never points outward
  but inward, from the edge towards the container centre. It is perpendicular to the
  edge and, for an edge of non-zero length, a unit vector. A particle is treated as
  penetrating exactly when its signed distance from the edge along that normal is below
  its radius: then it is moved along the normal by \<open>radius - dist\<close>, and otherwise the
  edge changes nothing.
\<close>

theorem edge_normal_inward:
  "\<not> pointsOutward (edgeNormal p1 p2) p1
   \<and> dot (edgeNormal p1 p2) p1 \<le> 0
   \<and> dot (edgeNormal p1 p2) (sub p2 p1) = 0
   \<and> (p1 \<noteq> p2 \<longrightarrow> mag (edgeNormal p1 p2) = 1)
   \<and> (penetrating p1 p2 ball \<longleftrightarrow> edgeDist p1 p2 ball < radius ball)
   \<and> (penetrating p1 p2 ball \<longrightarrow>
         pos (fst (collideEdge e audio p1 p2 (ball, fx)))
           = add (pos ball) (mult (edgeNormal p1 p2) (radius ball - edgeDist p1 p2 ball)))
   \<and> (\<not> penetrating p1 p2 ball \<longrightarrow> collideEdge e audio p1 p2 (ball, fx) = (ball, fx))"
proof -
  have a: "dot (edgeNormal p1 p2) p1 \<le> 0" by (rule edgeNormal_toward_center)
  then have a': "\<not> pointsOutward (edgeNormal p1 p2) p1" by (simp add: pointsOutward_def)
  have b: "dot (edgeNormal p1 p2) (sub p2 p1) = 0" by (rule edgeNormal_perp)
  have c: "p1 \<noteq> p2 \<longrightarrow> mag (edgeNormal p1 p2) = 1"
    using mag_edgeNormal[of p1 p2] by (auto simp: Vector2_eq_iff)
  have d: "penetrating p1 p2 ball \<longleftrightarrow> edgeDist p1 p2 ball < radius ball"
    by (simp add: penetrating_def)
  have f: "penetrating p1 p2 ball \<longrightarrow>
         pos (fst (collideEdge e audio p1 p2 (ball, fx)))
           = add (pos ball) (mult (edgeNormal p1 p2) (radius ball - edgeDist p1 p2 ball))"
    by (simp add: collideEdge_pos penetrating_def)
  have g: "\<not> penetrating p1 p2 ball \<longrightarrow> collideEdge e audio p1 p2 (ball, fx) = (ball, fx)"
    by (simp add: collideEdge_idle penetrating_def)
  show ?thesis by (rule conjI[OF a' conjI[OF a conjI[OF b conjI[OF c conjI[OF d conjI[OF f g]]]]]])
qed

text \<open>
  At the edge \<open>x = 10\<close>: the particle at \<open>(7, 0)\<close> penetrates and is moved to
  \<open>(5, 0)\<close>, towards the centre; the particle at the centre does not penetrate.
\<close>

theorem edge_normal_inward_witness:
  "wallP1 \<noteq> wallP2
   \<and> mag (edgeNormal wallP1 wallP2) = 1
   \<and> penetrating wallP1 wallP2 (mkBall \<lparr>x = 7, y = 0\<rparr> \<lparr>x = 2, y = 0\<rparr> 5)
   \<and> pos (fst (collideEdge (1 / 2) False wallP1 wallP2
                  (mkBall \<lparr>x = 7, y = 0\<rparr> \<lparr>x = 2, y = 0\<rparr> 5, 0, []))) = \<lparr>x = 5, y = 0\<rparr>
   \<and> \<not> penetrating wallP1 wallP2 (mkBall \<lparr>x = 0, y = 0\<rparr> \<lparr>x = 2, y = 0\<rparr> 5)
   \<and> collideEdge (1 / 2) False wallP1 wallP2 (mkBall \<lparr>x = 0, y = 0\<rparr> \<lparr>x = 2, y = 0\<rparr> 5, 0, [])
        = (mkBall \<lparr>x = 0, y = 0\<rparr> \<lparr>x = 2, y = 0\<rparr> 5, 0, [])"
proof -
  let ?b = "mkBall \<lparr>x = 7, y = 0\<rparr> \<lparr>x = 2, y = 0\<rparr> 5"
  let ?c = "mkBall \<lparr>x = 0, y = 0\<rparr> \<lparr>x = 2, y = 0\<rparr> 5"
  have ne: "wallP1 \<noteq> wallP2" by (simp add: wallP1_def wallP2_def)
  have db: "edgeDist wallP1 wallP2 ?b = 3"
    by (simp add: edgeDist_def wall_normal) (simp add: mkBall_def wallP1_def sub_def dot_def)
  have dc: "edgeDist wallP1 wallP2 ?c = 10"
    by (simp add: edgeDist_def wall_normal) (simp add: mkBall_def wallP1_def sub_def dot_def)
  have pb: "penetrating wallP1 wallP2 ?b" by (simp add: penetrating_def db) (simp add: mkBall_def)
  have pc: "\<not> penetrating wallP1 wallP2 ?c" by (simp add: penetrating_def dc) (simp add: mkBall_def)
  have q: "add (pos ?b) (mult (edgeNormal wallP1 wallP2) (radius ?b - edgeDist wallP1 wallP2 ?b))
             = \<lparr>x = 5, y = 0\<rparr>"
    by (simp add: db wall_normal) (simp add: mkBall_def add_def mult_def)
  note tb = edge_normal_inward[of wallP1 wallP2 ?b "1 / 2" False "(0, [])"]
  note tc = edge_normal_inward[of wallP1 wallP2 ?c "1 / 2" False "(0, [])"]
  from tb ne have m: "mag (edgeNormal wallP1 wallP2) = 1" by blast
  from tb pb have "pos (fst (collideEdge (1 / 2) False wallP1 wallP2 (?b, 0, [])))
      = add (pos ?b) (mult (edgeNormal wallP1 wallP2) (radius ?b - edgeDist wallP1 wallP2 ?b))"
    by blast
  then have r: "pos (fst (collideEdge (1 / 2) False wallP1 wallP2 (?b, 0, []))) = \<lparr>x = 5, y = 0\<rparr>"
    by (simp only: q)
  from tc pc have i: "collideEdge (1 / 2) False wallP1 wallP2 (?c, 0, []) = (?c, 0, [])" by blast
  from ne m pb r pc i show ?thesis by blast
qed

text \<open>
  Claim C2 as stated calls the normal outward. At the edge \<open>x = 10\<close>, to the right of
  the centre, the normal is \<open>(-1, 0)\<close>: it points left, towards the centre, and the
  centre itself lies at signed distance \<open>+10\<close> along it.
\<close>

lemma wall_inward:
  "edgeNormal wallP1 wallP2 = \<lparr>x = - 1, y = 0\<rparr>
   \<and> dot (edgeNormal wallP1 wallP2) wallP1 = - 10
   \<and> add wallP1 (mult (edgeNormal wallP1 wallP2) 10) = \<lparr>x = 0, y = - 10\<rparr>"
  by (simp add: wall_normal) (simp add: wallP1_def dot_def add_def mult_def)

theorem edge_normal_outward_counterexample:
  "edgeNormal wallP1 wallP2 = \<lparr>x = - 1, y = 0\<rparr>
   \<and> dot (edgeNormal wallP1 wallP2) wallP1 = - 10
   \<and> \<not> pointsOutward (edgeNormal wallP1 wallP2) wallP1
   \<and> edgeDist wallP1 wallP2 (mkBall \<lparr>x = 0, y = 0\<rparr> \<lparr>x = 0, y = 0\<rparr> 5) = 10"
proof -
  have "edgeDist wallP1 wallP2 (mkBall \<lparr>x = 0, y = 0\<rparr> \<lparr>x = 0, y = 0\<rparr> 5) = 10"
    by (simp add: edgeDist_def wall_normal) (simp add: mkBall_def wallP1_def sub_def dot_def)
  moreover have d: "dot (edgeNormal wallP1 wallP2) wallP1 = - 10" using wall_inward by blast
  have "\<not> pointsOutward (edgeNormal wallP1 wallP2) wallP1"
    unfolding pointsOutward_def d by simp
  moreover note this
  ultimately show ?thesis using wall_inward by blast
qed

section \<open>Initialisation\<close>

lemma mag_polar: "mag \<lparr>x = cos a * d, y = sin a * d\<rparr> = \<bar>d\<bar>"
proof -
  have c: "cos a * cos a + sin a * sin a = 1" by (rule sin_cos_squared_add3)
  have "cos a * d * (cos a * d) + sin a * d * (sin a * d)
          = d * d * (cos a * cos a + sin a * sin a)"
    by (simp only: distrib_left mult.assoc mult.left_commute mult.commute)
  then have "cos a * d * (cos a * d) + sin a * d * (sin a * d) = d\<^sup>2"
    by (simp only: c mult_1_right power2_eq_square)
  then show ?thesis by (simp add: mag_def)
qed

lemma newBall_props:
  assumes rnd: "\<forall>k. 0 \<le> random k \<and> random k < 1"
  shows "trail (newBall config random i) = []
       \<and> acc (newBall config random i) = \<lparr>x = 0, y = 0\<rparr>
       \<and> radius (newBall config random i) = ballSize config
       \<and> mag (pos (newBall config random i)) < 20
       \<and> (\<exists>m a. 0.8 \<le> m \<and> m < 1.2
               \<and> vel (newBall config random i)
                   = \<lparr>x = cos a * (initialSpeed config * m), y = sin a * (initialSpeed config * m)\<rparr>
               \<and> mag (vel (newBall config random i)) = m * \<bar>initialSpeed config\<bar>)"
proof -
  from rnd have r1: "0 \<le> random (4 * i + 1)" "random (4 * i + 1) < 1" by simp_all
  from rnd have r2: "0 \<le> random (4 * i + 2)" "random (4 * i + 2) < 1" by simp_all
  have p: "mag (pos (newBall config random i)) = random (4 * i + 1) * 20"
    using r1 by (simp add: newBall_def Let_def mag_polar)
  let ?m = "0.8 + random (4 * i + 2) * 0.4"
  have m: "0.8 \<le> ?m" "?m < 1.2" using r2 by simp_all
  have "mag (vel (newBall config random i)) = \<bar>initialSpeed config * ?m\<bar>"
    by (simp add: newBall_def Let_def mag_polar)
  also have "\<dots> = ?m * \<bar>initialSpeed config\<bar>" using m by (simp add: abs_mult)
  finally have mv: "mag (vel (newBall config random i)) = ?m * \<bar>initialSpeed config\<bar>" .
  have "vel (newBall config random i)
          = \<lparr>x = cos (random (4 * i + 3) * pi * 2) * (initialSpeed config * ?m),
             y = sin (random (4 * i + 3) * pi * 2) * (initialSpeed config * ?m)\<rparr>"
    by (simp add: newBall_def Let_def)
  with m mv have v: "\<exists>m a. 0.8 \<le> m \<and> m < 1.2
               \<and> vel (newBall config random i)
                   = \<lparr>x = cos a * (initialSpeed config * m), y = sin a * (initialSpeed config * m)\<rparr>
               \<and> mag (vel (newBall config random i)) = m * \<bar>initialSpeed config\<bar>"
    by blast
  have "mag (pos (newBall config random i)) < 20" using r1 by (simp add: p)
  with v show ?thesis by (simp add: newBall_def Let_def)
qed

lemma initDeps_differ:
  "initDeps old \<noteq> initDeps config \<longleftrightarrow>
     cfg_id old \<noteq> cfg_id config \<or> ballCount old \<noteq> ballCount config
     \<or> initialSpeed old \<noteq> initialSpeed config \<or> ballSize old \<noteq> ballSize config"
  by (auto simp: initDeps_def)

text \<open>
  Claim C10. The initialisation effect runs at mount and whenever the simulation id,
  the particle count, the initial speed or the particle radius differs from its
  previous value; otherwise it leaves the state alone. When it runs, with random
  draws in \<open>[0, 1)\<close>, it sets the rotation to 0 and replaces the particle array by
  exactly \<open>ballCount\<close> fresh particles, each with an empty trail, zero acceleration,
  the configured radius, a position less than 20 units from the container centre,
  and a velocity of some direction whose \<open>speed\<close> is \<open>m * initialSpeed\<close> for some
  \<open>m\<close> in \<open>[0.8, 1.2)\<close>, so that its magnitude is \<open>m * \<bar>initialSpeed\<bar>\<close>.
\<close>

theorem initialization:
  assumes rnd: "\<forall>k. 0 \<le> random k \<and> random k < 1"
  shows "(previous = None
          \<or> (\<exists>old. previous = Some old
                \<and> (cfg_id old \<noteq> cfg_id config \<or> ballCount old \<noteq> ballCount config
                   \<or> initialSpeed old \<noteq> initialSpeed config \<or> ballSize old \<noteq> ballSize config))
          \<longrightarrow> rotation (initEffect previous config random st) = 0
            \<and> balls (initEffect previous config random st)
                = map (newBall config random) [0 ..< ballCount config]
            \<and> length (balls (initEffect previous config random st)) = ballCount config
            \<and> (\<forall>b \<in> set (balls (initEffect previous config random st)).
                  trail b = [] \<and> acc b = \<lparr>x = 0, y = 0\<rparr> \<and> radius b = ballSize config
                \<and> mag (pos b) < 20
                \<and> (\<exists>m a. 0.8 \<le> m \<and> m < 1.2
                      \<and> vel b = \<lparr>x = cos a * (initialSpeed config * m),
                                  y = sin a * (initialSpeed config * m)\<rparr>
                      \<and> mag (vel b) = m * \<bar>initialSpeed config\<bar>)))
       \<and> (\<forall>old. previous = Some old \<and> cfg_id old = cfg_id config
                \<and> ballCount old = ballCount config \<and> initialSpeed old = initialSpeed config
                \<and> ballSize old = ballSize config
              \<longrightarrow> initEffect previous config random st = st)"
    (is "(?trigger \<longrightarrow> ?reset) \<and> ?keep")
proof -
  have fresh: "rotation (initialize config random st) = 0
            \<and> balls (initialize config random st) = map (newBall config random) [0 ..< ballCount config]
            \<and> length (balls (initialize config random st)) = ballCount config
            \<and> (\<forall>b \<in> set (balls (initialize config random st)).
                  trail b = [] \<and> acc b = \<lparr>x = 0, y = 0\<rparr> \<and> radius b = ballSize config
                \<and> mag (pos b) < 20
                \<and> (\<exists>m a. 0.8 \<le> m \<and> m < 1.2
                      \<and> vel b = \<lparr>x = cos a * (initialSpeed config * m),
                                  y = sin a * (initialSpeed config * m)\<rparr>
                      \<and> mag (vel b) = m * \<bar>initialSpeed config\<bar>))"
    using newBall_props[OF rnd, of config] by (auto simp: initialize_def)
  have run: "initEffect previous config random st = initialize config random st" if ?trigger
    using that by (auto simp: initEffect_def initDeps_differ)
  have keep: ?keep
    by (auto simp: initEffect_def initDeps_def)
  have "?trigger \<longrightarrow> ?reset"
  proof
    assume ?trigger
    from fresh show ?reset unfolding run[OF \<open>?trigger\<close>] .
  qed
  with keep show ?thesis by (rule conjI[rotated])
qed

text \<open>
  A change of the particle count from 0 to 1 on a state rotated by 3: the rotation
  is reset and the one particle sits at the centre with speed \<open>0.8 * 5 = 4\<close>.
\<close>

theorem initialization_witness:
  "(\<forall>k. 0 \<le> noRandom k \<and> noRandom k < 1)
   \<and> ballCount emptyTriangle \<noteq> ballCount oneBallTriangle
   \<and> rotation (windowEnd\<lparr>rotation := 3\<rparr>) = 3
   \<and> rotation (initEffect (Some emptyTriangle) oneBallTriangle noRandom (windowEnd\<lparr>rotation := 3\<rparr>)) = 0
   \<and> length (balls (initEffect (Some emptyTriangle) oneBallTriangle noRandom (windowEnd\<lparr>rotation := 3\<rparr>))) = 1
   \<and> map pos (balls (initEffect (Some emptyTriangle) oneBallTriangle noRandom (windowEnd\<lparr>rotation := 3\<rparr>)))
        = [\<lparr>x = 0, y = 0\<rparr>]
   \<and> map vel (balls (initEffect (Some emptyTriangle) oneBallTriangle noRandom (windowEnd\<lparr>rotation := 3\<rparr>)))
        = [\<lparr>x = 4, y = 0\<rparr>]"
proof -
  let ?st = "windowEnd\<lparr>rotation := 3\<rparr>"
  let ?r = "initEffect (Some emptyTriangle) oneBallTriangle noRandom ?st"
  have rnd: "\<forall>k. 0 \<le> noRandom k \<and> noRandom k < 1" by (simp add: noRandom_def)
  have ch: "ballCount emptyTriangle \<noteq> ballCount oneBallTriangle"
    by (simp add: oneBallTriangle_def emptyTriangle_def)
  then have trig: "Some emptyTriangle = None
          \<or> (\<exists>old. Some emptyTriangle = Some old
                \<and> (cfg_id old \<noteq> cfg_id oneBallTriangle \<or> ballCount old \<noteq> ballCount oneBallTriangle
                   \<or> initialSpeed old \<noteq> initialSpeed oneBallTriangle
                   \<or> ballSize old \<noteq> ballSize oneBallTriangle))" by simp
  from initialization[OF rnd, of "Some emptyTriangle" oneBallTriangle ?st] trig
  have rot: "rotation ?r = 0"
    and bs: "balls ?r = map (newBall oneBallTriangle noRandom) [0 ..< ballCount oneBallTriangle]"
    and len: "length (balls ?r) = ballCount oneBallTriangle"
    by blast+
  have one: "[0 ..< ballCount oneBallTriangle] = [0]" by (simp add: oneBallTriangle_def)
  have p: "map pos (balls ?r) = [\<lparr>x = 0, y = 0\<rparr>]"
    by (simp add: bs one) (simp add: newBall_def noRandom_def)
  have v: "map vel (balls ?r) = [\<lparr>x = 4, y = 0\<rparr>]"
    by (simp add: bs one) (simp add: newBall_def noRandom_def oneBallTriangle_def emptyTriangle_def)
  have l: "length (balls ?r) = 1" using len by (simp add: oneBallTriangle_def)
  have r3: "rotation ?st = 3" by simp
  from rnd ch r3 rot l p v show ?thesis by blast
qed

section \<open>Sub-steps without collisions\<close>

lemma fold_collideEdge_quiet:
  "\<forall>i \<in> set is. \<not> penetrating (p i) (q i) b \<Longrightarrow>
   fold (\<lambda>i. collideEdge e audio (p i) (q i)) is (b, fx) = (b, fx)"
  by (induction "is") (simp_all add: collideEdge_idle penetrating_def)

lemma collideEdges_quiet:
  "list_all (\<lambda>i. \<not> penetrating (vs ! i) (vs ! ((i + 1) mod length vs)) b) [0 ..< length vs] \<Longrightarrow>
   collideEdges e audio vs (b, fx) = (b, fx)"
  unfolding collideEdges_def list_all_iff by (rule fold_collideEdge_quiet)

lemma forEachBall_quiet:
  "list_all (\<lambda>b. list_all (\<lambda>i. \<not> penetrating (vs ! i) (vs ! ((i + 1) mod length vs)) b)
                    [0 ..< length vs]) (map (applyForces gs config mouse dt) bs) \<Longrightarrow>
   forEachBall gs config mouse dt vs bs fx = (map (applyForces gs config mouse dt) bs, fx)"
  by (induction bs) (simp_all add: collideEdges_quiet)

lemma pairStep_quiet:
  "\<not> mag (sub (pos (bs ! j)) (pos (bs ! i))) < radius (bs ! i) + radius (bs ! j) \<Longrightarrow>
   pairStep e audio (i, j) (bs, fx) = (bs, fx)"
  by (cases fx) (simp add: pairStep_def collidePair_def Let_def)

lemma fold_pairStep_quiet:
  "list_all (\<lambda>ij. \<not> mag (sub (pos (bs ! snd ij)) (pos (bs ! fst ij)))
                     < radius (bs ! fst ij) + radius (bs ! snd ij)) ps \<Longrightarrow>
   fold (pairStep e audio) ps (bs, fx) = (bs, fx)"
proof (induction ps)
  case Nil
  show ?case by simp
next
  case (Cons ij ps)
  obtain i j where ij: "ij = (i, j)" by (cases ij)
  from Cons.prems have "pairStep e audio (i, j) (bs, fx) = (bs, fx)"
    by (intro pairStep_quiet) (simp add: ij)
  with Cons show ?case by (simp add: ij)
qed

lemma runPhysicsStep_quiet:
  assumes "quietStep gs config mouse dt vs bs"
  shows "runPhysicsStep gs config mouse dt vs (bs, fx) = (map (applyForces gs config mouse dt) bs, fx)"
proof -
  let ?bs' = "map (applyForces gs config mouse dt) bs"
  from assms have e: "list_all (\<lambda>b. list_all (\<lambda>i. \<not> penetrating (vs ! i) (vs ! ((i + 1) mod length vs)) b)
                    [0 ..< length vs]) ?bs'"
    and p: "list_all (\<lambda>ij. \<not> mag (sub (pos (?bs' ! snd ij)) (pos (?bs' ! fst ij)))
                     < radius (?bs' ! fst ij) + radius (?bs' ! snd ij)) (pairIndices (length ?bs'))"
    by (simp_all add: quietStep_def Let_def)
  have "forEachBall gs config mouse dt vs bs fx = (?bs', fx)" using e by (rule forEachBall_quiet)
  then show ?thesis
    using fold_pairStep_quiet[OF p] by (simp add: runPhysicsStep_def collidePairs_def)
qed

lemma subSteps_quiet:
  "quietRun gs config r dt n st \<Longrightarrow>
   balls (fst (subSteps gs config r dt n (st, sounds)))
     = map ((applyForces gs config (mousePos st) dt) ^^ n) (balls st)"
proof (induction n arbitrary: st sounds)
  case 0
  show ?case by simp
next
  case (Suc n)
  let ?rot = "rotation st + rotationSpeed config * rotationMultiplier gs * dt"
  let ?vs = "containerVertices config r \<lparr>x = 0, y = 0\<rparr> ?rot"
  let ?af = "applyForces gs config (mousePos st) dt"
  let ?st1 = "st\<lparr>balls := map ?af (balls st), rotation := ?rot\<rparr>"
  from Suc.prems have q: "quietStep gs config (mousePos st) dt ?vs (balls st)"
    and qr: "quietRun gs config r dt n ?st1" by (simp_all add: Let_def)
  have step: "runPhysicsStep gs config (mousePos st) dt ?vs (balls st, collisionCount st, sounds)
      = (map ?af (balls st), collisionCount st, sounds)"
    using q by (rule runPhysicsStep_quiet)
  have "subSteps gs config r dt (Suc n) (st, sounds) = subSteps gs config r dt n (?st1, sounds)"
    by (simp add: Let_def step)
  then show ?case using Suc.IH[OF qr, of sounds] by (simp add: funpow_swap1)
qed

section \<open>Drag\<close>

lemma applyForces_drag:
  assumes "gravity config = 0"
  shows "vel (applyForces gs config None dt b)
           = mult (vel b) ((1 - (viscosity gs + friction config)) powr dt)"
  using assms
  by (simp add: applyForces_def gravityVector_def Let_def Math_pow_def mult_def)

lemma mult_mult: "mult (mult v a) b = mult v (a * b)"
  by (simp add: mult_def)

lemma funpow_drag:
  assumes g: "gravity config = 0" and c: "viscosity gs + friction config < 1"
  shows "vel (((applyForces gs config None dt) ^^ n) b)
           = mult (vel b) ((1 - (viscosity gs + friction config)) powr (dt * real n))"
proof (induction n)
  case 0
  from c show ?case by (simp add: mult_def)
next
  case (Suc n)
  let ?a = "1 - (viscosity gs + friction config)"
  have "dt * real (Suc n) = dt * real n + dt" by (simp add: algebra_simps)
  then have "?a powr (dt * real (Suc n)) = ?a powr (dt * real n) * ?a powr dt"
    by (simp only: powr_add)
  then show ?case by (simp add: applyForces_drag[OF g] Suc.IH mult_mult)
qed

text \<open>
  Claim C3. With \<open>viscosity + friction = c < 1\<close> (so the drag base \<open>1 - c\<close> is
  positive; the claim's range \<open>0 \<le> c < 1\<close> is included), gravity 0, no pointer and a
  frame in which no sub-step has a collision, the velocity of every particle after the
  frame of total simulated time \<open>T = timeScale\<close> is the initial one times
  \<open>(1 - c)^T\<close>, whatever the number \<open>precision \<ge> 1\<close> of sub-steps of size
  \<open>T / precision\<close>: the factor of one sub-step of size \<open>dt\<close> is \<open>(1 - c)^dt\<close>, and
  the factors multiply to \<open>(1 - c)^T\<close>. Numbers are reals, so the equality is exact.
\<close>

theorem drag_decay:
  assumes T: "0 < timeScale gs" and k: "0 < precision gs"
      and g: "gravity config = 0"
      and c: "viscosity gs + friction config < 1"
      and m: "mousePos st = None"
      and q: "collisionFree gs config shapeRadius st"
  shows "map vel (balls (fst (advance gs config shapeRadius st)))
           = map (\<lambda>b. mult (vel b) ((1 - (viscosity gs + friction config)) powr timeScale gs))
               (balls st)
       \<and> (\<forall>dt b. vel (applyForces gs config None dt b)
                    = mult (vel b) ((1 - (viscosity gs + friction config)) powr dt))"
proof -
  let ?dt = "timeScale gs / real (precision gs)"
  from q have qr: "quietRun gs config shapeRadius ?dt (precision gs) st"
    by (simp add: collisionFree_def)
  have dt: "?dt * real (precision gs) = timeScale gs" using k by simp
  have "balls (fst (advance gs config shapeRadius st))
          = map ((applyForces gs config None ?dt) ^^ precision gs) (balls st)"
    using T subSteps_quiet[OF qr, of "[]"] by (simp add: advance_def Let_def m)
  moreover have "vel (((applyForces gs config None ?dt) ^^ precision gs) b)
      = mult (vel b) ((1 - (viscosity gs + friction config)) powr timeScale gs)" for b
    using funpow_drag[OF g c, where dt = ?dt and n = "precision gs" and b = b] unfolding dt .
  ultimately have "map vel (balls (fst (advance gs config shapeRadius st)))
           = map (\<lambda>b. mult (vel b) ((1 - (viscosity gs + friction config)) powr timeScale gs))
               (balls st)" by (simp add: comp_def)
  then show ?thesis using applyForces_drag[OF g, of gs] by simp
qed

section \<open>A frame without collisions in a square\<close>

text \<open>
  The square of circumradius 100 has its edges at distance \<open>100 / sqrt 2 \<ge> 50\<close> from
  the centre; a particle whose distance from the centre plus its radius is at most 50
  penetrates none of them.
\<close>

lemma upt_four: "[0..<4] = [0, 1, 2, Suc 2]"
  by (simp add: numeral_eq_Suc upt_rec)

lemma three_half_pi: "cos (pi * 3 / 2) = 0 \<and> sin (pi * 3 / 2) = - 1"
proof -
  have "pi * 3 / 2 = 3 / 2 * pi" by simp
  then show ?thesis by (simp only: cos_3over2_pi sin_3over2_pi)
qed

lemma square_vertices:
  "containerVertices dragSquare 100 \<lparr>x = 0, y = 0\<rparr> 0
     = [\<lparr>x = 100, y = 0\<rparr>, \<lparr>x = 0, y = 100\<rparr>, \<lparr>x = - 100, y = 0\<rparr>, \<lparr>x = 0, y = - 100\<rparr>]"
  by (simp add: containerVertices_def dragSquare_def generatePolygon_def upt_four Let_def
        three_half_pi)

lemma dot_sq_le: "(dot a n)\<^sup>2 \<le> dot a a * dot n n"
proof -
  have "dot a a * dot n n - (dot a n)\<^sup>2 = (x a * y n - y a * x n)\<^sup>2"
    by (simp add: dot_def power2_eq_square algebra_simps)
  moreover have "0 \<le> (x a * y n - y a * x n)\<^sup>2" by simp
  ultimately show ?thesis by linarith
qed

lemma dot_self_nonneg: "0 \<le> dot v v"
  by (simp add: dot_def)

lemma abs_dot_le: "\<bar>dot a n\<bar> \<le> mag a * mag n"
proof -
  have "\<bar>dot a n\<bar> = sqrt ((dot a n)\<^sup>2)" by simp
  also have "\<dots> \<le> sqrt (dot a a * dot n n)" using dot_sq_le by (simp only: real_sqrt_le_iff)
  also have "\<dots> = mag a * mag n" by (simp add: mag_eq_sqrt_dot real_sqrt_mult)
  finally show ?thesis .
qed

lemma mag_edgeNormal_le: "mag (edgeNormal p1 p2) \<le> 1"
  by (simp add: mag_eq_sqrt_dot dot_edgeNormal_self)

lemma mag_nonneg: "0 \<le> mag v"
  by (simp add: mag_def)

lemma far_from_edge:
  assumes "mag (pos b) + radius b \<le> - dot (edgeNormal p1 p2) p1"
  shows "\<not> penetrating p1 p2 b"
proof -
  let ?n = "edgeNormal p1 p2"
  have "\<bar>dot (pos b) ?n\<bar> \<le> mag (pos b) * mag ?n" by (rule abs_dot_le)
  also have "\<dots> \<le> mag (pos b) * 1"
    by (rule mult_left_mono[OF mag_edgeNormal_le mag_nonneg])
  finally have "- mag (pos b) \<le> dot (pos b) ?n" by simp
  moreover have "edgeDist p1 p2 b = dot (pos b) ?n - dot p1 ?n"
    by (simp add: edgeDist_def dot_sub_left)
  moreover have "dot p1 ?n = dot ?n p1" by (simp add: dot_def mult.commute)
  ultimately show ?thesis using assms by (simp add: penetrating_def)
qed

lemma edge_offset:
  "- dot (edgeNormal p1 p2) p1 = \<bar>x p2 * y p1 - y p2 * x p1\<bar> / mag (sub p2 p1)"
proof -
  let ?perp = "\<lparr>x = - y (sub p2 p1), y = x (sub p2 p1)\<rparr>"
  let ?m = "mag (sub p2 p1)"
  let ?t = "x p2 * y p1 - y p2 * x p1"
  have mp: "mag ?perp = ?m" by (simp add: mag_def add.commute)
  show ?thesis
  proof (cases "?m = 0")
    case True
    then have "normalize_v ?perp = \<lparr>x = 0, y = 0\<rparr>" by (simp add: normalize_v_def mp)
    then show ?thesis using True by (simp add: edgeNormal_def Let_def dot_def)
  next
    case False
    have pos: "0 < ?m" using False mag_nonneg[of "sub p2 p1"] by simp
    have n0: "normalize_v ?perp = \<lparr>x = - y (sub p2 p1) / ?m, y = x (sub p2 p1) / ?m\<rparr>"
      using False by (simp add: normalize_v_def mp Let_def)
    have "dot (normalize_v ?perp) p1 = (- y (sub p2 p1) * x p1 + x (sub p2 p1) * y p1) / ?m"
      unfolding n0 by (simp add: dot_def diff_divide_distrib)
    also have "- y (sub p2 p1) * x p1 + x (sub p2 p1) * y p1 = ?t"
      by (simp add: sub_def algebra_simps)
    finally have d0: "dot (normalize_v ?perp) p1 = ?t / ?m" .
    show ?thesis
    proof (cases "0 < ?t")
      case True
      then have "0 < dot (normalize_v ?perp) p1" using pos by (simp add: d0)
      then have "edgeNormal p1 p2 = \<lparr>x = x (normalize_v ?perp) * (- 1), y = y (normalize_v ?perp) * (- 1)\<rparr>"
        by (simp add: edgeNormal_def Let_def)
      then have "dot (edgeNormal p1 p2) p1 = - dot (normalize_v ?perp) p1"
        by (simp add: dot_def)
      then show ?thesis using True by (simp add: d0)
    next
      case False
      then have "\<not> 0 < dot (normalize_v ?perp) p1" using pos by (simp add: d0 zero_less_divide_iff)
      then have "edgeNormal p1 p2 = normalize_v ?perp" by (simp add: edgeNormal_def Let_def)
      then have "- dot (edgeNormal p1 p2) p1 = - (?t / ?m)" by (simp only: d0)
      moreover have "\<bar>?t\<bar> = - ?t" using False by simp
      then have "\<bar>?t\<bar> / ?m = - (?t / ?m)" by (simp only: minus_divide_left)
      ultimately show ?thesis by (simp only:)
    qed
  qed
qed

lemma sqrt_20000: "sqrt 20000 \<le> 200"
  by (rule real_le_lsqrt) simp_all

lemma square_offset:
  assumes "\<bar>x p2 * y p1 - y p2 * x p1\<bar> = 10000" and "mag (sub p2 p1) = sqrt 20000"
  shows "50 \<le> - dot (edgeNormal p1 p2) p1"
proof -
  have "0 < sqrt (20000 :: real)" by simp
  then have "(50 :: real) \<le> 10000 / sqrt 20000"
    using sqrt_20000 by (simp add: pos_le_divide_eq)
  then show ?thesis by (simp add: edge_offset assms)
qed

lemma square_roomy:
  assumes "mag (pos b) + radius b \<le> 50"
  shows "list_all (\<lambda>i. \<not> penetrating
            ([\<lparr>x = 100, y = 0\<rparr>, \<lparr>x = 0, y = 100\<rparr>, \<lparr>x = - 100, y = 0\<rparr>, \<lparr>x = 0, y = - 100\<rparr>] ! i)
            ([\<lparr>x = 100, y = 0\<rparr>, \<lparr>x = 0, y = 100\<rparr>, \<lparr>x = - 100, y = 0\<rparr>, \<lparr>x = 0, y = - 100\<rparr>]
               ! ((i + 1) mod 4)) b) [0 ..< 4]"
proof -
  have e: "\<not> penetrating p1 p2 b"
    if "\<bar>x p2 * y p1 - y p2 * x p1\<bar> = 10000" and "mag (sub p2 p1) = sqrt 20000" for p1 p2
    using square_offset[OF that] assms by (intro far_from_edge) simp
  have e0: "\<not> penetrating \<lparr>x = 100, y = 0\<rparr> \<lparr>x = 0, y = 100\<rparr> b"
    by (rule e) (simp_all add: mag_def sub_def)
  have e1: "\<not> penetrating \<lparr>x = 0, y = 100\<rparr> \<lparr>x = - 100, y = 0\<rparr> b"
    by (rule e) (simp_all add: mag_def sub_def)
  have e2: "\<not> penetrating \<lparr>x = - 100, y = 0\<rparr> \<lparr>x = 0, y = - 100\<rparr> b"
    by (rule e) (simp_all add: mag_def sub_def)
  have e3: "\<not> penetrating \<lparr>x = 0, y = - 100\<rparr> \<lparr>x = 100, y = 0\<rparr> b"
    by (rule e) (simp_all add: mag_def sub_def)
  show ?thesis using e0 e1 e2 e3 by (simp add: upt_four)
qed

lemma quarter_powr_half: "(1 / 4 :: real) powr (1 / 2) = 1 / 2"
proof -
  have "(1 / 4 :: real) powr (1 / 2) = sqrt (1 / 4)" by (rule powr_half_sqrt) simp
  also have "\<dots> = 1 / 2" by (simp add: real_sqrt_divide)
  finally show ?thesis .
qed

lemma mag_x_axis: "mag \<lparr>x = a, y = 0\<rparr> = \<bar>a\<bar>"
  by (simp add: mag_def)

lemma drag_half_step:
  "applyForces twoSteps dragSquare None (1 / 2) (mkBall \<lparr>x = p, y = 0\<rparr> \<lparr>x = v, y = 0\<rparr> 5)
     = mkBall \<lparr>x = p + v / 4, y = 0\<rparr> \<lparr>x = v / 2, y = 0\<rparr> 5"
proof -
  have a: "1 - (viscosity twoSteps + friction dragSquare) = 1 / 4"
    by (simp add: twoSteps_def dragSquare_def)
  have g: "gravityVector twoSteps dragSquare = \<lparr>x = 0, y = 0\<rparr>"
    by (simp add: gravityVector_def dragSquare_def)
  show ?thesis
    by (simp add: applyForces_def Let_def g a Math_pow_def quarter_powr_half)
       (simp add: mkBall_def mult_def add_def)
qed

lemma drag_square_quiet:
  assumes "\<bar>p + v / 4\<bar> \<le> 45"
  shows "quietStep twoSteps dragSquare None (1 / 2)
           (containerVertices dragSquare 100 \<lparr>x = 0, y = 0\<rparr> 0)
           [mkBall \<lparr>x = p, y = 0\<rparr> \<lparr>x = v, y = 0\<rparr> 5]"
proof -
  let ?b = "mkBall \<lparr>x = p + v / 4, y = 0\<rparr> \<lparr>x = v / 2, y = 0\<rparr> 5"
  have "mag (pos ?b) + radius ?b \<le> 50" using assms by (simp add: mkBall_def mag_x_axis)
  from square_roomy[OF this] show ?thesis
    by (simp add: quietStep_def Let_def drag_half_step square_vertices pairIndices_def upt_four)
qed

lemma drag_collisionFree: "collisionFree twoSteps dragSquare 100 movingBall"
proof -
  have dt: "timeScale twoSteps / real (precision twoSteps) = 1 / 2"
    by (simp add: twoSteps_def defaultSettings_def)
  have k: "precision twoSteps = Suc (Suc 0)" by (simp add: twoSteps_def)
  have r0: "rotationSpeed dragSquare = 0" by (simp add: dragSquare_def)
  have q1: "quietStep twoSteps dragSquare None (1 / 2)
           (containerVertices dragSquare 100 \<lparr>x = 0, y = 0\<rparr> 0)
           [mkBall \<lparr>x = 0, y = 0\<rparr> \<lparr>x = 4, y = 0\<rparr> 5]"
    by (rule drag_square_quiet) simp
  have q2: "quietStep twoSteps dragSquare None (1 / 2)
           (containerVertices dragSquare 100 \<lparr>x = 0, y = 0\<rparr> 0)
           [mkBall \<lparr>x = 0 + 4 / 4, y = 0\<rparr> \<lparr>x = 4 / 2, y = 0\<rparr> 5]"
    by (rule drag_square_quiet) simp
  have "quietRun twoSteps dragSquare 100 (1 / 2) (Suc (Suc 0)) movingBall"
    using q1 q2 by (simp add: Let_def movingBall_def initialEngine_def r0 drag_half_step)
  then have "quietRun twoSteps dragSquare 100 (timeScale twoSteps / real (precision twoSteps))
               (precision twoSteps) movingBall"
    by (simp only: dt) (simp only: k)
  then show ?thesis by (simp only: collisionFree_def)
qed

text \<open>
  Two sub-steps of size 0.5 with \<open>c = 0.75\<close>: the velocity goes from \<open>(4, 0)\<close> over
  \<open>(2, 0)\<close> to \<open>(1, 0) = (4, 0) * 0.25^1\<close>, and the particle stays near the centre
  of the square.
\<close>

theorem drag_decay_witness:
  "0 < timeScale twoSteps \<and> 0 < precision twoSteps \<and> gravity dragSquare = 0
   \<and> viscosity twoSteps + friction dragSquare < 1 \<and> mousePos movingBall = None
   \<and> collisionFree twoSteps dragSquare 100 movingBall
   \<and> map vel (balls movingBall) = [\<lparr>x = 4, y = 0\<rparr>]
   \<and> map vel (balls (fst (advance twoSteps dragSquare 100 movingBall))) = [\<lparr>x = 1, y = 0\<rparr>]"
proof -
  have T: "0 < timeScale twoSteps" by (simp add: twoSteps_def defaultSettings_def)
  have k: "0 < precision twoSteps" by (simp add: twoSteps_def)
  have g: "gravity dragSquare = 0" by (simp add: dragSquare_def)
  have c: "viscosity twoSteps + friction dragSquare < 1" by (simp add: twoSteps_def dragSquare_def)
  have m: "mousePos movingBall = None" by (simp add: movingBall_def initialEngine_def)
  note q = drag_collisionFree
  have v0: "map vel (balls movingBall) = [\<lparr>x = 4, y = 0\<rparr>]"
    by (simp add: movingBall_def mkBall_def)
  have f: "(1 - (viscosity twoSteps + friction dragSquare)) powr timeScale twoSteps = 1 / 4"
    by (simp add: twoSteps_def dragSquare_def defaultSettings_def)
  from drag_decay[OF T k g c m q]
  have "map vel (balls (fst (advance twoSteps dragSquare 100 movingBall)))
          = map (\<lambda>b. mult (vel b) ((1 - (viscosity twoSteps + friction dragSquare))
                                     powr timeScale twoSteps)) (balls movingBall)"
    by (rule conjunct1)
  then have "map vel (balls (fst (advance twoSteps dragSquare 100 movingBall))) = [\<lparr>x = 1, y = 0\<rparr>]"
    unfolding f by (simp add: movingBall_def mkBall_def mult_def)
  with T k g c m q v0 show ?thesis by blast
qed

end
